theory Spec2Isabelle
  imports Complex_Main "HOL-Library.Extended_Nat"
begin

section \<open>Angle arithmetic (orientation utilities)\<close>

text \<open>
  The orientation utilities are given twice.  Here their arithmetic is that of the real
  numbers, which is what the formulas of the specification mean; a result that JavaScript
  would report as \<^verbatim>\<open>NaN\<close> is \<open>None\<close> wherever a function can produce one.  From the section on
  binary64 arithmetic on they are given as the program computes them, every result rounded to a
  double.  The remainder operator \<^verbatim>\<open>%\<close> truncates the quotient towards zero, so its result
  carries the sign of the dividend.
\<close>

definition jsTrunc :: "real \<Rightarrow> int" where
  "jsTrunc x = (if x < 0 then \<lceil>x\<rceil> else \<lfloor>x\<rfloor>)"

definition jsRem :: "real \<Rightarrow> real \<Rightarrow> real" where
  "jsRem x m = x - m * of_int (jsTrunc (x / m))"

text \<open>\<^verbatim>\<open>normalizeDeg\<close>: \<^verbatim>\<open>let n = degrees % 360; if (n < 0) n += 360; return n\<close>.\<close>

definition normalizeDeg :: "real \<Rightarrow> real" where
  "normalizeDeg degrees =
     (let normalized = jsRem degrees 360
      in if normalized < 0 then normalized + 360 else normalized)"

text \<open>
  The loops \<^verbatim>\<open>while (offset > 180) offset -= 360\<close> and
  \<^verbatim>\<open>while (offset < -180) offset += 360\<close> of the anchor-relative transform.  Over the real
  numbers both are left after finitely many steps; their binary64 counterparts, which need
  not be, are \<open>whileAbove64\<close> and \<open>whileBelowNeg64\<close> below.
\<close>

function whileAbove180 :: "real \<Rightarrow> real" where
  "whileAbove180 offset = (if offset > 180 then whileAbove180 (offset - 360) else offset)"
  by pat_completeness auto
termination
proof (relation "measure (\<lambda>offset. nat \<lceil>(offset - 180) / 360\<rceil>)")
  fix offset :: real
  assume a: "180 < offset"
  have e: "(offset - 360 - 180) / 360 = (offset - 180) / 360 - 1"
    by (simp add: field_simps)
  have "\<lceil>(offset - 360 - 180) / 360\<rceil> = \<lceil>(offset - 180) / 360\<rceil> - 1"
    unfolding e by (rule ceiling_diff_one)
  moreover from a have "0 < \<lceil>(offset - 180) / 360\<rceil>"
    by simp
  ultimately have "nat \<lceil>(offset - 360 - 180) / 360\<rceil> < nat \<lceil>(offset - 180) / 360\<rceil>"
    by linarith
  then show "(offset - 360, offset) \<in> measure (\<lambda>offset. nat \<lceil>(offset - 180) / 360\<rceil>)"
    unfolding in_measure .
qed simp

function whileBelowNeg180 :: "real \<Rightarrow> real" where
  "whileBelowNeg180 offset =
     (if offset < - 180 then whileBelowNeg180 (offset + 360) else offset)"
  by pat_completeness auto
termination
proof (relation "measure (\<lambda>offset. nat \<lceil>(- 180 - offset) / 360\<rceil>)")
  fix offset :: real
  assume a: "offset < - 180"
  have e: "(- 180 - (offset + 360)) / 360 = (- 180 - offset) / 360 - 1"
    by (simp add: field_simps)
  have "\<lceil>(- 180 - (offset + 360)) / 360\<rceil> = \<lceil>(- 180 - offset) / 360\<rceil> - 1"
    unfolding e by (rule ceiling_diff_one)
  moreover from a have "0 < \<lceil>(- 180 - offset) / 360\<rceil>"
    by simp
  ultimately have "nat \<lceil>(- 180 - (offset + 360)) / 360\<rceil> < nat \<lceil>(- 180 - offset) / 360\<rceil>"
    by linarith
  then show "(offset + 360, offset) \<in> measure (\<lambda>offset. nat \<lceil>(- 180 - offset) / 360\<rceil>)"
    unfolding in_measure .
qed simp

declare whileAbove180.simps [simp del] whileBelowNeg180.simps [simp del]

section \<open>Orientation types\<close>

datatype ReferenceFrame = ecliptic | houses | signs | angles

text \<open>\<^verbatim>\<open>AstroObjectId = number | string\<close>; the same union types the element id of a lock query.\<close>

datatype AstroObjectId = IdNumber real | IdString string

type_synonym HouseNumber = nat

type_synonym SignNumber = nat

datatype AngleType = ASC | DESC | MC | IC

datatype AnchorTargetUnion =
    AnchorTarget AstroObjectId
  | AnchorTargetHouse HouseNumber
  | AnchorTargetSign SignNumber
  | AnchorTargetAngle AngleType

text \<open>
  The interface declares \<^verbatim>\<open>direction\<close> twice: as \<^verbatim>\<open>'cw' | 'ccw'\<close> for the
  anchor-relative model and as the optional \<^verbatim>\<open>1 | -1\<close> for the zero-point model.
  The field holds one value, of the union of the two types, or is absent.
\<close>

datatype Direction = cw | ccw | Plus1 | Minus1

record ViewFrame =
  referenceFrame :: ReferenceFrame
  anchor :: AnchorTargetUnion
  screenAngleDeg :: real
  direction :: "Direction option"
  radialFlip :: "bool option"
  angularFlip :: "bool option"
  worldZero :: "real option"
  screenZero :: "real option"
  scale :: "real option"

section \<open>View frame transforms\<close>

text \<open>
  The numeric value of \<^verbatim>\<open>direction\<close> in the zero-point model, with the destructuring
  default \<^verbatim>\<open>direction = 1\<close>.  Multiplying by one of the strings gives \<^verbatim>\<open>NaN\<close>.
\<close>

definition directionFactor :: "Direction option \<Rightarrow> real option" where
  "directionFactor d =
     (case d of
        None \<Rightarrow> Some 1
      | Some Plus1 \<Rightarrow> Some 1
      | Some Minus1 \<Rightarrow> Some (- 1)
      | Some cw \<Rightarrow> None
      | Some ccw \<Rightarrow> None)"

text \<open>
  The single correction step of the zero-point model:
  \<^verbatim>\<open>if (d > 180) d -= 360; if (d < -180) d += 360\<close>.
\<close>

definition foldOnce :: "real \<Rightarrow> real" where
  "foldOnce delta =
     (let d = (if delta > 180 then delta - 360 else delta)
      in if d < - 180 then d + 360 else d)"

definition scaleFactor :: "real option \<Rightarrow> real" where
  "scaleFactor s = (case s of None \<Rightarrow> 1 | Some v \<Rightarrow> v)"

definition worldToScreenAngle :: "real \<Rightarrow> ViewFrame \<Rightarrow> real \<Rightarrow> real option" where
  "worldToScreenAngle worldLongitude viewFrame anchorLongitude =
     (case (worldZero viewFrame, screenZero viewFrame) of
        (Some wz, Some sz) \<Rightarrow>
          (let delta = normalizeDeg (worldLongitude - wz);
               normalizedDelta = foldOnce delta
           in case directionFactor (direction viewFrame) of
                None \<Rightarrow> None
              | Some d \<Rightarrow>
                  Some (normalizeDeg (sz + d * normalizedDelta * scaleFactor (scale viewFrame))))
      | _ \<Rightarrow>
          (let offset0 = whileBelowNeg180 (whileAbove180 (worldLongitude - anchorLongitude));
               offset = (if direction viewFrame = Some ccw then - offset0 else offset0);
               screenAngle0 = screenAngleDeg viewFrame + offset;
               screenAngle =
                 (if angularFlip viewFrame = Some True
                  then screenAngleDeg viewFrame - (screenAngle0 - screenAngleDeg viewFrame)
                  else screenAngle0)
           in Some (normalizeDeg screenAngle)))"

text \<open>
  In the zero-point branch of the inverse, a zero \<^verbatim>\<open>scale\<close> makes the quotient infinite
  or \<^verbatim>\<open>NaN\<close>, and \<^verbatim>\<open>normalizeDeg\<close> of either is \<^verbatim>\<open>NaN\<close>.
\<close>

definition screenToWorldLongitude :: "real \<Rightarrow> ViewFrame \<Rightarrow> real \<Rightarrow> real option" where
  "screenToWorldLongitude screenAngle viewFrame anchorLongitude =
     (case (worldZero viewFrame, screenZero viewFrame) of
        (Some wz, Some sz) \<Rightarrow>
          (let normalizedScreen = normalizeDeg screenAngle;
               delta = normalizedScreen - sz;
               normalizedDelta = foldOnce delta
           in case directionFactor (direction viewFrame) of
                None \<Rightarrow> None
              | Some d \<Rightarrow>
                  if scaleFactor (scale viewFrame) = 0 then None
                  else Some (normalizeDeg
                               (wz + (normalizedDelta / scaleFactor (scale viewFrame)) * d)))
      | _ \<Rightarrow>
          (let normalizedScreen = normalizeDeg screenAngle;
               offset0 = whileBelowNeg180
                           (whileAbove180 (normalizedScreen - screenAngleDeg viewFrame));
               offset1 = (if angularFlip viewFrame = Some True then - offset0 else offset0);
               offset = (if direction viewFrame = Some ccw then - offset1 else offset1)
           in Some (normalizeDeg (anchorLongitude + offset))))"

text \<open>The two transform models, selected by the presence of both zero points.\<close>

definition legacyModel :: "ViewFrame \<Rightarrow> bool" where
  "legacyModel f = (worldZero f = None \<or> screenZero f = None)"

text \<open>The sign that direction and angular flip together give the anchor-relative offset.\<close>

definition flipSign :: "ViewFrame \<Rightarrow> real" where
  "flipSign f = (if (direction f = Some ccw) = (angularFlip f = Some True) then 1 else - 1)"

text \<open>In the zero-point model \<^verbatim>\<open>direction\<close> is a number or absent.\<close>

definition numericDirection :: "ViewFrame \<Rightarrow> bool" where
  "numericDirection f = (direction f = None \<or> direction f = Some Plus1 \<or> direction f = Some Minus1)"


text \<open>Frames of the presets: Ascendant at nine o'clock, and the mirrored zero-point frame
  of the specification's scenario (world zero resolved to 95 degrees).\<close>

definition presetAscLeftFrame :: ViewFrame where
  "presetAscLeftFrame =
     \<lparr>referenceFrame = houses, anchor = AnchorTargetAngle ASC, screenAngleDeg = 180,
      direction = Some ccw, radialFlip = None, angularFlip = None,
      worldZero = None, screenZero = None, scale = None\<rparr>"

definition zeroPointMirroredFrame :: ViewFrame where
  "zeroPointMirroredFrame =
     \<lparr>referenceFrame = houses, anchor = AnchorTargetAngle MC, screenAngleDeg = 90,
      direction = Some Minus1, radialFlip = None, angularFlip = None,
      worldZero = Some 95, screenZero = Some 90, scale = Some 1\<rparr>"

text \<open>The Ascendant frame with the anchor's screen position written as \<open>-90\<close> degrees.\<close>

definition negativeAngleFrame :: ViewFrame where
  "negativeAngleFrame = presetAscLeftFrame\<lparr>screenAngleDeg := - 90\<rparr>"

text \<open>A zero-point frame that zooms by a factor of two.\<close>

definition zoomFrame :: ViewFrame where
  "zoomFrame =
     \<lparr>referenceFrame = ecliptic, anchor = AnchorTargetAngle ASC, screenAngleDeg = 180,
      direction = Some Plus1, radialFlip = None, angularFlip = None,
      worldZero = Some 0, screenZero = Some 0, scale = Some 2\<rparr>"

text \<open>Two angles are congruent when they differ by a whole number of turns.\<close>

definition cong360 :: "real \<Rightarrow> real \<Rightarrow> bool" where
  "cong360 x y = (\<exists>k::int. x = y + 360 * of_int k)"

section \<open>Binary64 arithmetic\<close>

text \<open>
  The numbers of the program are binary64 values.  A finite one is given by the real number
  it stands for; the sign of a zero is not kept.  \<open>fl x\<close> is the number with a significand of 53
  bits nearest to \<open>x\<close>, a tie going to the even significand; below \<open>2\<^sup>-\<^sup>1\<^sup>0\<^sup>2\<^sup>2\<close> the spacing stays
  that of the lowest binade.  A result of magnitude \<open>2\<^sup>1\<^sup>0\<^sup>2\<^sup>4\<close> or more is an infinity.
\<close>

definition pow2 :: "int \<Rightarrow> real" where
  "pow2 e = (if 0 \<le> e then 2 ^ nat e else 1 / 2 ^ nat (- e))"

text \<open>The number of binary digits of a natural number.\<close>

fun bitLength :: "nat \<Rightarrow> nat" where
  "bitLength n = (if n = 0 then 0 else Suc (bitLength (n div 2)))"

declare bitLength.simps [simp del]

text \<open>The exponent \<open>e\<close> of the binade of \<open>x\<close>: \<open>2\<^sup>e \<le> \<bar>x\<bar> < 2\<^sup>e\<^sup>+\<^sup>1\<close>, and at least \<open>-1022\<close>.\<close>

definition binade :: "real \<Rightarrow> int" where
  "binade x =
     max (if 1 \<le> \<bar>x\<bar> then int (bitLength (nat \<lfloor>\<bar>x\<bar>\<rfloor>)) - 1
          else - int (bitLength (nat \<lceil>1 / \<bar>x\<bar>\<rceil> - 1)))
         (- 1022)"

definition roundEven :: "real \<Rightarrow> int" where
  "roundEven x =
     (let f = \<lfloor>x\<rfloor>;
          r = x - of_int f
      in if r < 1 / 2 then f
         else if 1 / 2 < r then f + 1
         else if even f then f else f + 1)"

definition fl :: "real \<Rightarrow> real" where
  "fl x =
     (if x = 0 then 0
      else of_int (roundEven (x / pow2 (binade x - 52))) * pow2 (binade x - 52))"

datatype double = Finite real | PosInf | NegInf | NaN

definition roundDouble :: "real \<Rightarrow> double" where
  "roundDouble x =
     (let y = fl x
      in if 2 ^ 1024 \<le> y then PosInf
         else if y \<le> - (2 ^ 1024) then NegInf
         else Finite y)"

fun dneg :: "double \<Rightarrow> double" where
  "dneg (Finite x) = Finite (- x)"
| "dneg PosInf = NegInf"
| "dneg NegInf = PosInf"
| "dneg NaN = NaN"

fun dadd :: "double \<Rightarrow> double \<Rightarrow> double" where
  "dadd (Finite x) (Finite y) = roundDouble (x + y)"
| "dadd NaN y = NaN"
| "dadd x NaN = NaN"
| "dadd PosInf NegInf = NaN"
| "dadd NegInf PosInf = NaN"
| "dadd PosInf y = PosInf"
| "dadd x PosInf = PosInf"
| "dadd NegInf y = NegInf"
| "dadd x NegInf = NegInf"

definition dsub :: "double \<Rightarrow> double \<Rightarrow> double" where
  "dsub x y = dadd x (dneg y)"

text \<open>The sign of a double; \<open>None\<close> for \<^verbatim>\<open>NaN\<close>.\<close>

fun dsign :: "double \<Rightarrow> real option" where
  "dsign (Finite x) = Some (sgn x)"
| "dsign PosInf = Some 1"
| "dsign NegInf = Some (- 1)"
| "dsign NaN = None"

definition signedInf :: "real \<Rightarrow> double" where
  "signedInf s = (if s = 0 then NaN else if 0 < s then PosInf else NegInf)"

fun dmul :: "double \<Rightarrow> double \<Rightarrow> double" where
  "dmul (Finite x) (Finite y) = roundDouble (x * y)"
| "dmul x y =
     (case (dsign x, dsign y) of
        (Some s, Some t) \<Rightarrow> signedInf (s * t)
      | _ \<Rightarrow> NaN)"

text \<open>
  A quotient by zero is an infinity with the sign of the dividend, the zero taken as
  positive, and \<^verbatim>\<open>NaN\<close> when the dividend is zero as well.
\<close>

fun ddiv :: "double \<Rightarrow> double \<Rightarrow> double" where
  "ddiv (Finite x) (Finite y) = (if y = 0 then signedInf x else roundDouble (x / y))"
| "ddiv (Finite x) PosInf = Finite 0"
| "ddiv (Finite x) NegInf = Finite 0"
| "ddiv PosInf (Finite y) = (if y < 0 then NegInf else PosInf)"
| "ddiv NegInf (Finite y) = (if y < 0 then PosInf else NegInf)"
| "ddiv x y = NaN"

text \<open>Comparison; every comparison with \<^verbatim>\<open>NaN\<close> is false.\<close>

fun dless :: "double \<Rightarrow> double \<Rightarrow> bool" where
  "dless (Finite x) (Finite y) = (x < y)"
| "dless NaN y = False"
| "dless x NaN = False"
| "dless x NegInf = False"
| "dless PosInf y = False"
| "dless x y = True"

text \<open>
  The remainder \<^verbatim>\<open>x % m\<close> by a finite non-zero \<open>m\<close>; it is exact for a finite \<open>x\<close> and \<^verbatim>\<open>NaN\<close>
  otherwise.
\<close>

fun drem :: "double \<Rightarrow> real \<Rightarrow> double" where
  "drem (Finite x) m = Finite (jsRem x m)"
| "drem x m = NaN"

section \<open>The transforms in binary64\<close>

text \<open>
  The functions of the orientation utilities once more, every operation rounding its result
  as the program does.  The frame's own numbers are finite.
\<close>

definition normalizeDeg64 :: "double \<Rightarrow> double" where
  "normalizeDeg64 degrees =
     (let normalized = drem degrees 360
      in if dless normalized (Finite 0) then dadd normalized (Finite 360) else normalized)"

text \<open>The two loops; \<open>None\<close> means that the loop is never left.\<close>

partial_function (option) whileAbove64 :: "double \<Rightarrow> double option" where
  "whileAbove64 offset =
     (if dless (Finite 180) offset then whileAbove64 (dsub offset (Finite 360))
      else Some offset)"

partial_function (option) whileBelowNeg64 :: "double \<Rightarrow> double option" where
  "whileBelowNeg64 offset =
     (if dless offset (Finite (- 180)) then whileBelowNeg64 (dadd offset (Finite 360))
      else Some offset)"

definition foldOnce64 :: "double \<Rightarrow> double" where
  "foldOnce64 delta =
     (let d = (if dless (Finite 180) delta then dsub delta (Finite 360) else delta)
      in if dless d (Finite (- 180)) then dadd d (Finite 360) else d)"

definition directionFactor64 :: "Direction option \<Rightarrow> double" where
  "directionFactor64 d =
     (case d of
        None \<Rightarrow> Finite 1
      | Some Plus1 \<Rightarrow> Finite 1
      | Some Minus1 \<Rightarrow> Finite (- 1)
      | Some cw \<Rightarrow> NaN
      | Some ccw \<Rightarrow> NaN)"

definition worldToScreenAngle64 :: "double \<Rightarrow> ViewFrame \<Rightarrow> double \<Rightarrow> double option" where
  "worldToScreenAngle64 worldLongitude viewFrame anchorLongitude =
     (case (worldZero viewFrame, screenZero viewFrame) of
        (Some wz, Some sz) \<Rightarrow>
          (let delta = normalizeDeg64 (dsub worldLongitude (Finite wz));
               normalizedDelta = foldOnce64 delta
           in Some (normalizeDeg64
                      (dadd (Finite sz)
                         (dmul (dmul (directionFactor64 (direction viewFrame)) normalizedDelta)
                            (Finite (scaleFactor (scale viewFrame)))))))
      | _ \<Rightarrow>
          (case whileAbove64 (dsub worldLongitude anchorLongitude) of
             None \<Rightarrow> None
           | Some reduced \<Rightarrow>
               (case whileBelowNeg64 reduced of
                  None \<Rightarrow> None
                | Some offset0 \<Rightarrow>
                    (let offset = (if direction viewFrame = Some ccw then dneg offset0 else offset0);
                         screenAngle0 = dadd (Finite (screenAngleDeg viewFrame)) offset;
                         screenAngle =
                           (if angularFlip viewFrame = Some True
                            then dsub (Finite (screenAngleDeg viewFrame))
                                   (dsub screenAngle0 (Finite (screenAngleDeg viewFrame)))
                            else screenAngle0)
                     in Some (normalizeDeg64 screenAngle)))))"

definition screenToWorldLongitude64 :: "double \<Rightarrow> ViewFrame \<Rightarrow> double \<Rightarrow> double option" where
  "screenToWorldLongitude64 screenAngle viewFrame anchorLongitude =
     (case (worldZero viewFrame, screenZero viewFrame) of
        (Some wz, Some sz) \<Rightarrow>
          (let normalizedScreen = normalizeDeg64 screenAngle;
               delta = dsub normalizedScreen (Finite sz);
               normalizedDelta = foldOnce64 delta
           in Some (normalizeDeg64
                      (dadd (Finite wz)
                         (dmul (ddiv normalizedDelta (Finite (scaleFactor (scale viewFrame))))
                            (directionFactor64 (direction viewFrame))))))
      | _ \<Rightarrow>
          (let normalizedScreen = normalizeDeg64 screenAngle
           in case whileAbove64 (dsub normalizedScreen (Finite (screenAngleDeg viewFrame))) of
                None \<Rightarrow> None
              | Some reduced \<Rightarrow>
                  (case whileBelowNeg64 reduced of
                     None \<Rightarrow> None
                   | Some offset0 \<Rightarrow>
                       (let offset1 = (if angularFlip viewFrame = Some True then dneg offset0
                                       else offset0);
                            offset = (if direction viewFrame = Some ccw then dneg offset1
                                      else offset1)
                        in Some (normalizeDeg64 (dadd anchorLongitude offset))))))"

text \<open>The double that the literal \<^verbatim>\<open>0.3\<close> denotes.\<close>

definition threeTenths :: real where
  "threeTenths = 5404319552844595 / 2 ^ 54"

text \<open>An anchor longitude so large that the doubles around it are 2048 apart.\<close>

definition hugeAnchor :: real where
  "hugeAnchor = 10 ^ 19"

section \<open>Lock rules\<close>

datatype LockFrame = world | houses_lock | signs_lock | screen

datatype LockMode = exact | follow_anchor

text \<open>An absent index or type list is \<open>None\<close>; the object subject always carries its list.\<close>

datatype LockSubject =
    LockSubjectObject "AstroObjectId list"
  | LockSubjectHouse "HouseNumber list option"
  | LockSubjectSign "SignNumber list option"
  | LockSubjectAngle "AngleType list option"

record LockRule =
  subject :: LockSubject
  frame :: LockFrame
  mode :: LockMode
  followAnchor :: "AnchorTargetUnion option"

datatype ElementKind = objectKind | houseKind | signKind | angleKind

fun subjectKind :: "LockSubject \<Rightarrow> ElementKind" where
  "subjectKind (LockSubjectObject ids) = objectKind"
| "subjectKind (LockSubjectHouse indices) = houseKind"
| "subjectKind (LockSubjectSign indices) = signKind"
| "subjectKind (LockSubjectAngle types) = angleKind"

fun angleTypeName :: "AngleType \<Rightarrow> string" where
  "angleTypeName ASC = ''ASC''"
| "angleTypeName DESC = ''DESC''"
| "angleTypeName MC = ''MC''"
| "angleTypeName IC = ''IC''"

text \<open>
  \<^verbatim>\<open>lockRuleApplies\<close>.  The element id is a number or a string at run time;
  \<^verbatim>\<open>includes\<close> compares it with the members of the list.  The test
  \<^verbatim>\<open>!rule.subject.indices\<close> holds for an absent list only: an empty array is truthy.
\<close>

definition lockRuleApplies :: "LockRule \<Rightarrow> ElementKind \<Rightarrow> AstroObjectId \<Rightarrow> bool" where
  "lockRuleApplies rule elementType elementId =
     (if subjectKind (subject rule) \<noteq> elementType then False
      else case subject rule of
             LockSubjectObject ids \<Rightarrow> elementId \<in> set ids
           | LockSubjectHouse None \<Rightarrow> True
           | LockSubjectHouse (Some indices) \<Rightarrow> elementId \<in> set (map (\<lambda>i. IdNumber (real i)) indices)
           | LockSubjectSign None \<Rightarrow> True
           | LockSubjectSign (Some indices) \<Rightarrow> elementId \<in> set (map (\<lambda>i. IdNumber (real i)) indices)
           | LockSubjectAngle None \<Rightarrow> True
           | LockSubjectAngle (Some types) \<Rightarrow> elementId \<in> set (map (\<lambda>t. IdString (angleTypeName t)) types))"

definition emptyHouseLock :: LockRule where
  "emptyHouseLock =
     \<lparr>subject = LockSubjectHouse (Some []), frame = screen, mode = exact, followAnchor = None\<rparr>"

section \<open>Frame keys\<close>

fun referenceFrameName :: "ReferenceFrame \<Rightarrow> string" where
  "referenceFrameName ecliptic = ''ecliptic''"
| "referenceFrameName houses = ''houses''"
| "referenceFrameName signs = ''signs''"
| "referenceFrameName angles = ''angles''"

fun anchorKindName :: "AnchorTargetUnion \<Rightarrow> string" where
  "anchorKindName (AnchorTarget i) = ''object''"
| "anchorKindName (AnchorTargetHouse i) = ''house''"
| "anchorKindName (AnchorTargetSign i) = ''sign''"
| "anchorKindName (AnchorTargetAngle t) = ''angle''"

text \<open>
  The conversion of a number to its decimal string is the language's own; the functions that
  use it take it as the parameter \<open>numberToString\<close>.
\<close>

fun anchorTargetToKey :: "(real \<Rightarrow> string) \<Rightarrow> AnchorTargetUnion \<Rightarrow> string" where
  "anchorTargetToKey numberToString (AnchorTarget (IdNumber n)) = numberToString n"
| "anchorTargetToKey numberToString (AnchorTarget (IdString s)) = s"
| "anchorTargetToKey numberToString (AnchorTargetHouse i) = numberToString (real i)"
| "anchorTargetToKey numberToString (AnchorTargetSign i) = numberToString (real i)"
| "anchorTargetToKey numberToString (AnchorTargetAngle t) = angleTypeName t"

text \<open>The string a \<^verbatim>\<open>direction\<close> value joins as; an absent one is dropped by the filter.\<close>

fun directionPart :: "Direction option \<Rightarrow> string" where
  "directionPart None = ''''"
| "directionPart (Some cw) = ''cw''"
| "directionPart (Some ccw) = ''ccw''"
| "directionPart (Some Plus1) = ''1''"
| "directionPart (Some Minus1) = ''-1''"

fun joinWith :: "string \<Rightarrow> string list \<Rightarrow> string" where
  "joinWith sep [] = ''''"
| "joinWith sep [p] = p"
| "joinWith sep (p # q # ps) = p @ sep @ joinWith sep (q # ps)"

text \<open>
  \<^verbatim>\<open>viewFrameToKey\<close>: the six parts, the empty ones filtered out, joined with a bar.  The
  source's parameter \<^verbatim>\<open>frame\<close> is \<open>viewFrame\<close> here, \<open>frame\<close> being a field of the lock rule.
\<close>

definition viewFrameToKey :: "(real \<Rightarrow> string) \<Rightarrow> ViewFrame \<Rightarrow> string" where
  "viewFrameToKey numberToString viewFrame =
     (let parts =
            [referenceFrameName (referenceFrame viewFrame),
             anchorKindName (anchor viewFrame) @ '':'' @ anchorTargetToKey numberToString (anchor viewFrame),
             numberToString (screenAngleDeg viewFrame),
             directionPart (direction viewFrame),
             (if radialFlip viewFrame = Some True then ''rf'' else ''''),
             (if angularFlip viewFrame = Some True then ''af'' else '''')]
      in joinWith ''|'' (filter (\<lambda>p. p \<noteq> '''') parts))"

text \<open>The mirrored zero-point frame resolved against a chart whose Midheaven is at 5 degrees.\<close>

definition zeroPointMirroredFrame5 :: ViewFrame where
  "zeroPointMirroredFrame5 = zeroPointMirroredFrame\<lparr>worldZero := Some 5\<rparr>"

section \<open>Wheel definitions\<close>

datatype RingType = ring_signs | ring_houses | ring_planets | ring_aspects

datatype RingDataSource =
    StaticZodiacSource
  | StaticNakshatraSource
  | LayerHousesSource string
  | LayerPlanetsSource string
  | LayerVargaPlanetsSource string string
  | AspectSetSource string

record RingDefinition =
  slug :: string
  ringType :: RingType
  label :: string
  orderIndex :: real
  radiusInner :: real
  radiusOuter :: real
  dataSource :: RingDataSource

record WheelDefinitionWithPresets =
  name :: string
  description :: "string option"
  rings :: "RingDefinition list"
  version :: "string option"
  author :: "string option"
  tags :: "string list option"

section \<open>Version strings\<close>

definition isDigit :: "char \<Rightarrow> bool" where
  "isDigit c = (c \<in> set ''0123456789'')"

fun splitOn :: "char \<Rightarrow> string \<Rightarrow> string list" where
  "splitOn sep [] = [[]]"
| "splitOn sep (c # cs) =
     (if c = sep then [] # splitOn sep cs
      else (case splitOn sep cs of
              [] \<Rightarrow> [[c]]
            | p # ps \<Rightarrow> (c # p) # ps))"

definition isValidVersion :: "string \<Rightarrow> bool" where
  "isValidVersion v =
     (let parts = splitOn CHR ''.'' v
      in length parts = 3 \<and> list_all (\<lambda>p. p \<noteq> [] \<and> list_all isDigit p) parts)"

definition digitValue :: "char \<Rightarrow> nat" where
  "digitValue c =
     (case map_of (zip ''0123456789'' [0, 1, 2, 3, 4, 5, 6, 7, 8, 9]) c of
        Some d \<Rightarrow> d
      | None \<Rightarrow> 0)"

text \<open>The mathematical value of a sequence of decimal digits.\<close>

definition decimalValue :: "string \<Rightarrow> nat" where
  "decimalValue s = foldl (\<lambda>acc c. 10 * acc + digitValue c) 0 s"

text \<open>
  The numbers of the version functions are binary64 values.  They come from sequences of
  digits and from adding one, so each of them is a non-negative integer or \<^verbatim>\<open>Infinity\<close>: an
  \<open>enat\<close>.  \<open>toDouble n\<close> is the binary64 value nearest to the integer \<open>n\<close>: \<open>n\<close> itself when it
  has at most 53 significant bits, otherwise \<open>n\<close> rounded to 53 significant bits, a tie going
  to the even significand, and \<^verbatim>\<open>Infinity\<close> when the rounded value reaches \<open>2 ^ 1024\<close>.  (For a
  string of more than 20 significant digits the language lets an engine round from the first
  20 digits; the engines round the exact value, as here.)
\<close>

definition toDouble :: "nat \<Rightarrow> enat" where
  "toDouble n =
     (if bitLength n \<le> 53 then enat n
      else let u = 2 ^ (bitLength n - 53);
               q = n div u;
               r = n mod u;
               m = (if 2 * r < u \<or> (2 * r = u \<and> even q) then q else q + 1)
           in if 2 ^ 1024 \<le> m * u then \<infinity> else enat (m * u))"

text \<open>
  \<^verbatim>\<open>Number(part)\<close> on a part of a version string; \<open>None\<close> is \<^verbatim>\<open>NaN\<close>.  A sequence of digits has
  the double nearest to its decimal value (the empty string has 0).  The other two forms are
  those in which a number is printed: digits followed by \<^verbatim>\<open>e+\<close> and an exponent, and
  \<^verbatim>\<open>Infinity\<close>.  The migration passes only parts of strings that match
  \<^verbatim>\<open>/^\d+\.\d+\.\d+$/\<close> and parts of versions that \<^verbatim>\<open>getNextVersion\<close> has printed, which have
  one of these three forms; every other string is taken as \<^verbatim>\<open>NaN\<close>.
\<close>

definition toNumber :: "string \<Rightarrow> enat option" where
  "toNumber s =
     (if list_all isDigit s then Some (toDouble (decimalValue s))
      else if s = ''Infinity'' then Some \<infinity>
      else let mantissa = takeWhile isDigit s;
               rest = dropWhile isDigit s;
               exponent = drop 2 rest
           in if mantissa \<noteq> [] \<and> take 2 rest = ''e+'' \<and> exponent \<noteq> [] \<and>
                 list_all isDigit exponent
              then Some (toDouble (decimalValue mantissa * 10 ^ decimalValue exponent))
              else None)"

definition versionNumbers :: "string \<Rightarrow> enat option list" where
  "versionNumbers v = map toNumber (splitOn CHR ''.'' v)"

text \<open>\<^verbatim>\<open>parts[i] || 0\<close>: \<^verbatim>\<open>NaN\<close> and a missing part count as 0.\<close>

definition orZero :: "enat option \<Rightarrow> enat" where
  "orZero x = (case x of None \<Rightarrow> 0 | Some n \<Rightarrow> n)"

fun compareParts :: "enat list \<Rightarrow> enat list \<Rightarrow> int" where
  "compareParts [] [] = 0"
| "compareParts (x # xs) [] = (if x > 0 then 1 else compareParts xs [])"
| "compareParts [] (y # ys) = (if 0 < y then - 1 else compareParts [] ys)"
| "compareParts (x # xs) (y # ys) =
     (if x < y then - 1 else if x > y then 1 else compareParts xs ys)"

definition compareVersions :: "string \<Rightarrow> string \<Rightarrow> int" where
  "compareVersions v1 v2 =
     compareParts (map orZero (versionNumbers v1)) (map orZero (versionNumbers v2))"

text \<open>The decimal digits of a natural number.\<close>

definition digitChar :: "nat \<Rightarrow> char" where
  "digitChar d = ''0123456789'' ! d"

fun showNat :: "nat \<Rightarrow> string" where
  "showNat n = (if n < 10 then [digitChar n] else showNat (n div 10) @ [digitChar (n mod 10)])"

declare showNat.simps [simp del]

text \<open>
  A number as a template string prints it.  An integer up to \<open>2 ^ 53\<close> prints as its decimal
  digits.  A larger one prints from the shortest digit sequence \<open>s\<close>, of \<open>k\<close> digits, for which
  \<open>s * 10 ^ (n - k)\<close> still reads as the same double (the closest such \<open>s\<close>, when several have
  \<open>k\<close> digits): as \<open>s\<close> followed by zeros when \<open>n\<close> is at most 21, and in exponent notation
  otherwise.
\<close>

definition decimalCandidates :: "nat \<Rightarrow> nat \<Rightarrow> (nat \<times> nat) list" where
  "decimalCandidates x k =
     (let m = length (showNat x);
          s1 = x div 10 ^ (m - k)
      in filter (\<lambda>(s, n). toDouble (s * 10 ^ (n - k)) = enat x)
           ((if s1 + 1 < 10 ^ k then [(s1, m), (s1 + 1, m)] else [(s1, m)]) @
            (if k = 1 then [(1, m + 1)] else [])))"

definition closest :: "nat \<Rightarrow> nat \<Rightarrow> (nat \<times> nat) list \<Rightarrow> (nat \<times> nat) option" where
  "closest x k candidates =
     foldl (\<lambda>best (s, n).
              case best of
                None \<Rightarrow> Some (s, n)
              | Some (s', n') \<Rightarrow>
                  let d = \<bar>int (s * 10 ^ (n - k)) - int x\<bar>;
                      d' = \<bar>int (s' * 10 ^ (n' - k)) - int x\<bar>
                  in if d < d' \<or> (d = d' \<and> even s) then Some (s, n) else Some (s', n'))
       None candidates"

definition shortestDecimal :: "nat \<Rightarrow> string" where
  "shortestDecimal x =
     (case List.find (\<lambda>k. decimalCandidates x k \<noteq> []) [1 ..< Suc (length (showNat x))] of
        None \<Rightarrow> showNat x
      | Some k \<Rightarrow>
          (case closest x k (decimalCandidates x k) of
             None \<Rightarrow> showNat x
           | Some (s, n) \<Rightarrow>
               if n \<le> 21 then showNat s @ replicate (n - k) CHR ''0''
               else if k = 1 then showNat s @ ''e+'' @ showNat (n - 1)
               else hd (showNat s) # ''.'' @ tl (showNat s) @ ''e+'' @ showNat (n - 1)))"

definition numberText :: "enat option \<Rightarrow> string" where
  "numberText x =
     (case x of
        None \<Rightarrow> ''NaN''
      | Some \<infinity> \<Rightarrow> ''Infinity''
      | Some (enat n) \<Rightarrow> if n \<le> 2 ^ 53 then showNat n else shortestDecimal n)"

text \<open>\<^verbatim>\<open>parts[2] += 1\<close>: the sum is rounded to a double.\<close>

definition plusOne :: "enat option \<Rightarrow> enat option" where
  "plusOne x =
     (case x of
        None \<Rightarrow> None
      | Some \<infinity> \<Rightarrow> Some \<infinity>
      | Some (enat n) \<Rightarrow> Some (toDouble (n + 1)))"

definition getNextVersion :: "string \<Rightarrow> string option" where
  "getNextVersion v =
     (case versionNumbers v of
        [major, minor, patch] \<Rightarrow>
          Some (numberText major @ ''.'' @ numberText minor @ ''.'' @
                numberText (plusOne patch))
      | _ \<Rightarrow> None)"

section \<open>Migration\<close>

record MigrationResult =
  success :: bool
  migrated :: "WheelDefinitionWithPresets option"
  errors :: "string list option"

text \<open>
  A migration function returns the migrated definition or throws; the thrown value is
  recorded by its message when it is an \<^verbatim>\<open>Error\<close>, and as \<open>None\<close> otherwise.
\<close>

type_synonym MigrationFunction =
  "WheelDefinitionWithPresets \<Rightarrow> string option + WheelDefinitionWithPresets"

text \<open>The \<^verbatim>\<open>for\<close> loop over the migration functions of one step; the first throw ends it.\<close>

fun applyMigrations ::
  "MigrationFunction list \<Rightarrow> WheelDefinitionWithPresets \<Rightarrow> string option + WheelDefinitionWithPresets"
where
  "applyMigrations [] current = Inr current"
| "applyMigrations (migration # rest) current =
     (case migration current of
        Inl thrown \<Rightarrow> Inl thrown
      | Inr next \<Rightarrow> applyMigrations rest next)"

text \<open>
  The \<^verbatim>\<open>while\<close> loop of \<^verbatim>\<open>migrateWheelDefinition\<close>, on the state of its three variables
  \<^verbatim>\<open>current\<close>, \<^verbatim>\<open>currentVersion\<close> and \<^verbatim>\<open>errors\<close>.  The result is the state at which the loop
  is left, by its condition or by a \<^verbatim>\<open>break\<close>; \<open>None\<close> means that the loop is never left.
\<close>

partial_function (option) migrationLoop ::
  "(string \<rightharpoonup> MigrationFunction list) \<Rightarrow> string \<Rightarrow>
   WheelDefinitionWithPresets \<times> string \<times> string list \<Rightarrow>
   (WheelDefinitionWithPresets \<times> string \<times> string list) option"
where
  "migrationLoop migrations targetVersion st =
     (case st of (current, currentVersion, errs) \<Rightarrow>
        if compareVersions currentVersion targetVersion < 0 then
          (case getNextVersion currentVersion of
             None \<Rightarrow>
               Some (current, currentVersion,
                     errs @ [''Cannot determine next version after '' @ currentVersion])
           | Some nextVersion \<Rightarrow>
               (case migrations (currentVersion @ ''->'' @ nextVersion) of
                  None \<Rightarrow>
                    migrationLoop migrations targetVersion
                      (current\<lparr>version := Some nextVersion\<rparr>, nextVersion, errs)
                | Some migrationFunctions \<Rightarrow>
                    if migrationFunctions = [] then
                      migrationLoop migrations targetVersion
                        (current\<lparr>version := Some nextVersion\<rparr>, nextVersion, errs)
                    else
                      (case applyMigrations migrationFunctions current of
                         Inl thrown \<Rightarrow>
                           Some (current, currentVersion,
                                 errs @ [''Migration failed for '' @ currentVersion @ ''->''
                                         @ nextVersion @ '': ''
                                         @ (case thrown of Some m \<Rightarrow> m
                                            | None \<Rightarrow> ''Unknown error'')])
                       | Inr next \<Rightarrow>
                           migrationLoop migrations targetVersion
                             (next\<lparr>version := Some nextVersion\<rparr>, nextVersion, errs))))
        else Some st)"

definition migrationFailure :: "string \<Rightarrow> MigrationResult" where
  "migrationFailure msg = \<lparr>success = False, migrated = None, errors = Some [msg]\<rparr>"

definition migrateWheelDefinition ::
  "(string \<rightharpoonup> MigrationFunction list) \<Rightarrow> WheelDefinitionWithPresets \<Rightarrow> string \<Rightarrow>
   MigrationResult option"
where
  "migrateWheelDefinition migrations definition targetVersion =
     (case version definition of
        None \<Rightarrow> Some (migrationFailure ''Wheel definition has no version'')
      | Some v \<Rightarrow>
          if v = [] then Some (migrationFailure ''Wheel definition has no version'')
          else if \<not> isValidVersion v then
            Some (migrationFailure (''Invalid source version format: '' @ v))
          else if \<not> isValidVersion targetVersion then
            Some (migrationFailure (''Invalid target version format: '' @ targetVersion))
          else if compareVersions v targetVersion = 0 then
            Some \<lparr>success = True, migrated = Some definition, errors = None\<rparr>
          else if compareVersions v targetVersion > 0 then
            Some (migrationFailure
                    (''Cannot migrate backwards from '' @ v @ '' to '' @ targetVersion))
          else
            (case migrationLoop migrations targetVersion (definition, v, []) of
               None \<Rightarrow> None
             | Some (current, currentVersion, errs) \<Rightarrow>
                 if length errs > 0
                 then Some \<lparr>success = False, migrated = None, errors = Some errs\<rparr>
                 else Some \<lparr>success = True, migrated = Some current, errors = None\<rparr>))"

text \<open>No step has a migration function registered.\<close>

definition noMigrations :: "(string \<rightharpoonup> MigrationFunction list) \<Rightarrow> bool" where
  "noMigrations migrations = (\<forall>key. migrations key = None \<or> migrations key = Some [])"

text \<open>
  The components of a version string as exact integers, and the version strings all of whose
  components are at most \<open>2 ^ 53\<close>: up to there every integer is a double, and \<^verbatim>\<open>Number\<close> and
  \<^verbatim>\<open>+= 1\<close> are exact.
\<close>

definition exactVersion :: "string \<Rightarrow> nat list" where
  "exactVersion v = map decimalValue (splitOn CHR ''.'' v)"

definition safeVersion :: "string \<Rightarrow> bool" where
  "safeVersion v = (isValidVersion v \<and> list_all (\<lambda>n. n \<le> 2 ^ 53) (exactVersion v))"

text \<open>
  Relations between a source and a target version, on their exact components: the source is
  the greater of the two; the target is ahead in its major or minor component; the target
  agrees in both and is ahead in its patch component.
\<close>

definition newerThan :: "string \<Rightarrow> string \<Rightarrow> bool" where
  "newerThan v t =
     (case (exactVersion v, exactVersion t) of
        ([a, b, c], [a', b', c']) \<Rightarrow> a' < a \<or> (a = a' \<and> (b' < b \<or> (b = b' \<and> c' < c)))
      | _ \<Rightarrow> False)"

definition minorGap :: "string \<Rightarrow> string \<Rightarrow> bool" where
  "minorGap v t =
     (case (exactVersion v, exactVersion t) of
        ([a, b, c], [a', b', c']) \<Rightarrow> a < a' \<or> (a = a' \<and> b < b')
      | _ \<Rightarrow> False)"

definition patchGap :: "string \<Rightarrow> string \<Rightarrow> bool" where
  "patchGap v t =
     (case (exactVersion v, exactVersion t) of
        ([a, b, c], [a', b', c']) \<Rightarrow> a = a' \<and> b = b' \<and> c < c'
      | _ \<Rightarrow> False)"

text \<open>
  The keys \<^verbatim>\<open>`${currentVersion}->${nextVersion}`\<close> of the first \<open>n\<close> steps from a version, and
  the registries in which none of the steps from \<open>v\<close> to a target \<open>t\<close> ahead in the patch
  component has a migration function.
\<close>

fun stepKeys :: "nat \<Rightarrow> string \<Rightarrow> string list" where
  "stepKeys 0 currentVersion = []"
| "stepKeys (Suc n) currentVersion =
     (case getNextVersion currentVersion of
        None \<Rightarrow> []
      | Some nextVersion \<Rightarrow> (currentVersion @ ''->'' @ nextVersion) # stepKeys n nextVersion)"

definition patchDistance :: "string \<Rightarrow> string \<Rightarrow> nat" where
  "patchDistance v t = exactVersion t ! 2 - exactVersion v ! 2"

definition unregisteredSteps ::
  "(string \<rightharpoonup> MigrationFunction list) \<Rightarrow> string \<Rightarrow> string \<Rightarrow> bool"
where
  "unregisteredSteps migrations v t =
     list_all (\<lambda>key. migrations key = None \<or> migrations key = Some [])
       (stepKeys (patchDistance v t) v)"

text \<open>A version string printed without leading zeros.\<close>

definition versionString :: "nat \<Rightarrow> nat \<Rightarrow> nat \<Rightarrow> string" where
  "versionString major minor patch =
     showNat major @ ''.'' @ showNat minor @ ''.'' @ showNat patch"

definition canonicalVersion :: "string \<Rightarrow> string" where
  "canonicalVersion t =
     (case exactVersion t of [a, b, c] \<Rightarrow> versionString a b c | _ \<Rightarrow> t)"

text \<open>
  The built-in definition.  The fields \<^verbatim>\<open>config\<close>, \<^verbatim>\<open>displayOptions\<close> and the two default
  configurations play no part in the registry or the migration and are left to the record's
  extension.
\<close>

definition standardNatal :: WheelDefinitionWithPresets where
  "standardNatal =
     \<lparr>name = ''Standard Natal Wheel'',
      description = Some ''Default wheel with signs, houses, and planets'',
      rings =
        [\<lparr>slug = ''ring_signs'', ringType = ring_signs, label = ''Zodiac Signs'',
          orderIndex = 0, radiusInner = 85 / 100, radiusOuter = 1,
          dataSource = StaticZodiacSource\<rparr>,
         \<lparr>slug = ''ring_houses'', ringType = ring_houses, label = ''Houses'',
          orderIndex = 1, radiusInner = 75 / 100, radiusOuter = 85 / 100,
          dataSource = LayerHousesSource ''natal''\<rparr>,
         \<lparr>slug = ''ring_planets'', ringType = ring_planets, label = ''Natal Planets'',
          orderIndex = 2, radiusInner = 55 / 100, radiusOuter = 75 / 100,
          dataSource = LayerPlanetsSource ''natal''\<rparr>],
      version = Some ''1.0.0'',
      author = Some ''Gaia Tools'',
      tags = Some [''natal'', ''standard'', ''default'']\<rparr>"

text \<open>
  A registry whose one migration function belongs to the step after 1.0.3; the built-in
  definition at the versions \<open>1.0.2\<^sup>5\<^sup>3\<close> and \<open>1.0.(2\<^sup>5\<^sup>3 + 1)\<close>.
\<close>

definition laterStepRegistry :: "string \<rightharpoonup> MigrationFunction list" where
  "laterStepRegistry = [''1.0.3->1.0.4'' \<mapsto> [\<lambda>d. Inr (d\<lparr>author := Some ''migrated''\<rparr>)]]"

definition limitNatal :: WheelDefinitionWithPresets where
  "limitNatal = standardNatal\<lparr>version := Some ''1.0.9007199254740992''\<rparr>"

definition pastLimitNatal :: WheelDefinitionWithPresets where
  "pastLimitNatal = standardNatal\<lparr>version := Some ''1.0.9007199254740993''\<rparr>"

section \<open>Registry\<close>

text \<open>
  Names are strings of UTF-16 code units below 256, the Latin-1 range; a name with a code unit
  beyond it is outside this model.  On that range \<^verbatim>\<open>toLowerCase\<close> maps the letters A to Z and
  the letters from U+00C0 to U+00DE, the multiplication sign U+00D7 apart, to the code unit 32
  above, and leaves every other code unit as it is; the class \<^verbatim>\<open>\s\<close> holds the tab, the line
  feed, the vertical tab, the form feed, the carriage return, the space and the no-break space
  U+00A0.
\<close>

definition upperLetters :: string where
  "upperLetters =
     ''ABCDEFGHIJKLMNOPQRSTUVWXYZ'' @
       [CHR 0xC0, CHR 0xC1, CHR 0xC2, CHR 0xC3, CHR 0xC4, CHR 0xC5, CHR 0xC6, CHR 0xC7,
        CHR 0xC8, CHR 0xC9, CHR 0xCA, CHR 0xCB, CHR 0xCC, CHR 0xCD, CHR 0xCE, CHR 0xCF,
        CHR 0xD0, CHR 0xD1, CHR 0xD2, CHR 0xD3, CHR 0xD4, CHR 0xD5, CHR 0xD6, CHR 0xD8,
        CHR 0xD9, CHR 0xDA, CHR 0xDB, CHR 0xDC, CHR 0xDD, CHR 0xDE]"

definition lowerLetters :: string where
  "lowerLetters =
     ''abcdefghijklmnopqrstuvwxyz'' @
       [CHR 0xE0, CHR 0xE1, CHR 0xE2, CHR 0xE3, CHR 0xE4, CHR 0xE5, CHR 0xE6, CHR 0xE7,
        CHR 0xE8, CHR 0xE9, CHR 0xEA, CHR 0xEB, CHR 0xEC, CHR 0xED, CHR 0xEE, CHR 0xEF,
        CHR 0xF0, CHR 0xF1, CHR 0xF2, CHR 0xF3, CHR 0xF4, CHR 0xF5, CHR 0xF6, CHR 0xF8,
        CHR 0xF9, CHR 0xFA, CHR 0xFB, CHR 0xFC, CHR 0xFD, CHR 0xFE]"

definition toLowerChar :: "char \<Rightarrow> char" where
  "toLowerChar c =
     (case map_of (zip upperLetters lowerLetters) c of
        Some l \<Rightarrow> l
      | None \<Rightarrow> c)"

definition toLowerCase :: "string \<Rightarrow> string" where
  "toLowerCase s = map toLowerChar s"

definition isWhitespace :: "char \<Rightarrow> bool" where
  "isWhitespace c =
     (c \<in> set [CHR '' '', CHR 0x09, CHR 0x0A, CHR 0x0B, CHR 0x0C, CHR 0x0D, CHR 0xA0])"

text \<open>\<^verbatim>\<open>replace(/\s+/g, '-')\<close>: every maximal run of whitespace becomes one hyphen.\<close>

fun replaceWhitespaceRuns :: "bool \<Rightarrow> string \<Rightarrow> string" where
  "replaceWhitespaceRuns inRun [] = []"
| "replaceWhitespaceRuns inRun (c # cs) =
     (if isWhitespace c
      then (if inRun then replaceWhitespaceRuns True cs
            else CHR ''-'' # replaceWhitespaceRuns True cs)
      else c # replaceWhitespaceRuns False cs)"

definition normalizeWheelName :: "string \<Rightarrow> string" where
  "normalizeWheelName n = replaceWhitespaceRuns False (toLowerCase n)"

text \<open>The module-level map \<^verbatim>\<open>userDefinitions\<close> is passed in and returned.\<close>

definition registerWheelDefinition ::
  "WheelDefinitionWithPresets \<Rightarrow> (string \<rightharpoonup> WheelDefinitionWithPresets) \<Rightarrow>
   (string \<rightharpoonup> WheelDefinitionWithPresets)"
where
  "registerWheelDefinition definition userDefinitions =
     userDefinitions(normalizeWheelName (name definition) \<mapsto> definition)"

definition getWheelDefinition ::
  "(string \<rightharpoonup> WheelDefinitionWithPresets) \<Rightarrow> string \<Rightarrow> WheelDefinitionWithPresets option"
where
  "getWheelDefinition userDefinitions n =
     (let key = normalizeWheelName n
      in case userDefinitions key of
           Some d \<Rightarrow> Some d
         | None \<Rightarrow> if key = ''standard-natal-wheel'' then Some standardNatal else None)"

text \<open>A user's own wheel under the built-in's name.\<close>

definition userStandardNatal :: WheelDefinitionWithPresets where
  "userStandardNatal = standardNatal\<lparr>version := Some ''2.0.0'', author := Some ''User''\<rparr>"

section \<open>Loading wheel definitions from JSON\<close>

text \<open>
  The value that \<^verbatim>\<open>JSON.parse\<close> returns.  An object is the list of its properties; a
  property that is not in the list reads as \<^verbatim>\<open>undefined\<close>, which is \<open>None\<close>.
\<close>

datatype json =
    JNull
  | JBool bool
  | JNumber real
  | JString string
  | JArray "json list"
  | JObject "(string \<times> json) list"

fun getProp :: "json \<Rightarrow> string \<Rightarrow> json option" where
  "getProp (JObject properties) key = map_of properties key"
| "getProp other key = None"

fun truthy :: "json option \<Rightarrow> bool" where
  "truthy None = False"
| "truthy (Some JNull) = False"
| "truthy (Some (JBool b)) = b"
| "truthy (Some (JNumber x)) = (x \<noteq> 0)"
| "truthy (Some (JString s)) = (s \<noteq> [])"
| "truthy (Some (JArray xs)) = True"
| "truthy (Some (JObject properties)) = True"

fun typeOf :: "json option \<Rightarrow> string" where
  "typeOf None = ''undefined''"
| "typeOf (Some JNull) = ''object''"
| "typeOf (Some (JBool b)) = ''boolean''"
| "typeOf (Some (JNumber x)) = ''number''"
| "typeOf (Some (JString s)) = ''string''"
| "typeOf (Some (JArray xs)) = ''object''"
| "typeOf (Some (JObject properties)) = ''object''"

text \<open>\<^verbatim>\<open>list.includes(value)\<close> for a list of string literals.\<close>

fun includesString :: "string list \<Rightarrow> json option \<Rightarrow> bool" where
  "includesString allowed (Some (JString s)) = (s \<in> set allowed)"
| "includesString allowed other = False"

text \<open>\<^verbatim>\<open>typeof x !== 'number' || x < 0 || x > 1\<close>.\<close>

fun outsideUnit :: "json option \<Rightarrow> bool" where
  "outsideUnit (Some (JNumber x)) = (x < 0 \<or> x > 1)"
| "outsideUnit other = True"

text \<open>\<^verbatim>\<open>a >= b\<close> where both have passed the number test.\<close>

fun numberGe :: "json option \<Rightarrow> json option \<Rightarrow> bool" where
  "numberGe (Some (JNumber x)) (Some (JNumber y)) = (x \<ge> y)"
| "numberGe a b = False"

text \<open>\<^verbatim>\<open>value === literal\<close> for a string literal.\<close>

fun isString :: "json option \<Rightarrow> string \<Rightarrow> bool" where
  "isString (Some (JString s)) literal = (s = literal)"
| "isString other literal = False"

record WheelDefinitionValidationError =
  message :: string
  field :: "string option"

text \<open>How a call ends: it returns a value, or it throws the validation error.\<close>

datatype 'a completion = Returns 'a | Throws WheelDefinitionValidationError

definition validateRingDefinition :: "json \<Rightarrow> nat \<Rightarrow> unit completion" where
  "validateRingDefinition ring index =
     (let ringAt = ''Ring at index '' @ showNat index;
          path = ''rings['' @ showNat index @ '']''
      in
      if \<not> truthy (Some ring) \<or> typeOf (Some ring) \<noteq> ''object'' then
        Throws \<lparr>message = ringAt @ '' must be an object'', field = Some path\<rparr>
      else if typeOf (getProp ring ''slug'') \<noteq> ''string'' \<or> \<not> truthy (getProp ring ''slug'') then
        Throws \<lparr>message = ringAt @ '' must have a non-empty slug'', field = Some (path @ ''.slug'')\<rparr>
      else if \<not> includesString [''signs'', ''houses'', ''planets'', ''aspects''] (getProp ring ''type'') then
        Throws \<lparr>message = ringAt @ '' must have a valid type (signs, houses, planets, or aspects)'',
                field = Some (path @ ''.type'')\<rparr>
      else if typeOf (getProp ring ''label'') \<noteq> ''string'' \<or> \<not> truthy (getProp ring ''label'') then
        Throws \<lparr>message = ringAt @ '' must have a non-empty label'', field = Some (path @ ''.label'')\<rparr>
      else if typeOf (getProp ring ''orderIndex'') \<noteq> ''number'' then
        Throws \<lparr>message = ringAt @ '' must have a numeric orderIndex'',
                field = Some (path @ ''.orderIndex'')\<rparr>
      else if outsideUnit (getProp ring ''radiusInner'') then
        Throws \<lparr>message = ringAt @ '' must have a radiusInner between 0 and 1'',
                field = Some (path @ ''.radiusInner'')\<rparr>
      else if outsideUnit (getProp ring ''radiusOuter'') then
        Throws \<lparr>message = ringAt @ '' must have a radiusOuter between 0 and 1'',
                field = Some (path @ ''.radiusOuter'')\<rparr>
      else if numberGe (getProp ring ''radiusInner'') (getProp ring ''radiusOuter'') then
        Throws \<lparr>message = ringAt @ '' must have radiusInner < radiusOuter'',
                field = Some (path @ ''.radius'')\<rparr>
      else if \<not> truthy (getProp ring ''dataSource'') \<or> typeOf (getProp ring ''dataSource'') \<noteq> ''object'' then
        Throws \<lparr>message = ringAt @ '' must have a dataSource object'',
                field = Some (path @ ''.dataSource'')\<rparr>
      else
        (case getProp ring ''dataSource'' of
           None \<Rightarrow>
             Throws \<lparr>message = ringAt @ '' must have a dataSource object'',
                     field = Some (path @ ''.dataSource'')\<rparr>
         | Some source \<Rightarrow>
             let kind = getProp source ''kind'' in
             if \<not> includesString
                    [''static_zodiac'', ''layer_houses'', ''layer_planets'', ''aspect_set''] kind then
               Throws \<lparr>message = ringAt @ '' dataSource must have a valid kind'',
                       field = Some (path @ ''.dataSource.kind'')\<rparr>
             else if (isString kind ''layer_houses'' \<or> isString kind ''layer_planets'') \<and>
                     (typeOf (getProp source ''layerId'') \<noteq> ''string'' \<or>
                      \<not> truthy (getProp source ''layerId'')) then
               Throws \<lparr>message = ringAt @ '' dataSource must have a layerId for ''
                                 @ (case kind of Some (JString k) \<Rightarrow> k | _ \<Rightarrow> []),
                       field = Some (path @ ''.dataSource.layerId'')\<rparr>
             else if isString kind ''aspect_set'' \<and>
                     (typeOf (getProp source ''aspectSetId'') \<noteq> ''string'' \<or>
                      \<not> truthy (getProp source ''aspectSetId'')) then
               Throws \<lparr>message = ringAt @ '' dataSource must have an aspectSetId for aspect_set'',
                       field = Some (path @ ''.dataSource.aspectSetId'')\<rparr>
             else Returns ()))"

text \<open>The \<^verbatim>\<open>forEach\<close> over the rings: the first throw ends it.\<close>

fun validateRings :: "json list \<Rightarrow> nat \<Rightarrow> unit completion" where
  "validateRings [] index = Returns ()"
| "validateRings (ring # rest) index =
     (case validateRingDefinition ring index of
        Throws e \<Rightarrow> Throws e
      | Returns u \<Rightarrow> validateRings rest (index + 1))"

fun isStringValue :: "json \<Rightarrow> bool" where
  "isStringValue (JString s) = True"
| "isStringValue other = False"

definition validateWheelDefinition :: "json \<Rightarrow> unit completion" where
  \<open>validateWheelDefinition definition =
     (if \<not> truthy (Some definition) \<or> typeOf (Some definition) \<noteq> ''object'' then
        Throws \<lparr>message = ''Wheel definition must be an object'', field = None\<rparr>
      else if typeOf (getProp definition ''name'') \<noteq> ''string'' \<or> \<not> truthy (getProp definition ''name'') then
        Throws \<lparr>message = ''Wheel definition must have a non-empty name'', field = Some ''name''\<rparr>
      else
        (case getProp definition ''rings'' of
           Some (JArray ringList) \<Rightarrow>
             if length ringList = 0 then
               Throws \<lparr>message = ''Wheel definition must have at least one ring'',
                       field = Some ''rings''\<rparr>
             else
               (case validateRings ringList 0 of
                  Throws e \<Rightarrow> Throws e
                | Returns u \<Rightarrow>
                    if getProp definition ''description'' \<noteq> None \<and>
                       typeOf (getProp definition ''description'') \<noteq> ''string'' then
                      Throws \<lparr>message = ''Wheel definition description must be a string'',
                              field = Some ''description''\<rparr>
                    else if getProp definition ''version'' \<noteq> None \<and>
                            typeOf (getProp definition ''version'') \<noteq> ''string'' then
                      Throws \<lparr>message = ''Wheel definition version must be a string'',
                              field = Some ''version''\<rparr>
                    else if (case getProp definition ''version'' of
                               Some (JString v) \<Rightarrow> \<not> isValidVersion v
                             | _ \<Rightarrow> False) then
                      Throws \<lparr>message =
                                ''Wheel definition version must be in format major.minor.patch (e.g., "1.0.0"), got: ''
                                @ (case getProp definition ''version'' of
                                     Some (JString v) \<Rightarrow> v
                                   | _ \<Rightarrow> []),
                              field = Some ''version''\<rparr>
                    else if getProp definition ''author'' \<noteq> None \<and>
                            typeOf (getProp definition ''author'') \<noteq> ''string'' then
                      Throws \<lparr>message = ''Wheel definition author must be a string'',
                              field = Some ''author''\<rparr>
                    else
                      (case getProp definition ''tags'' of
                         None \<Rightarrow> Returns ()
                       | Some (JArray tagList) \<Rightarrow>
                           if \<not> list_all isStringValue tagList then
                             Throws \<lparr>message = ''Wheel definition tags must be an array of strings'',
                                     field = Some ''tags''\<rparr>
                           else Returns ()
                       | Some other \<Rightarrow>
                           Throws \<lparr>message = ''Wheel definition tags must be an array'',
                                   field = Some ''tags''\<rparr>))
         | _ \<Rightarrow>
             Throws \<lparr>message = ''Wheel definition must have a rings array'',
                     field = Some ''rings''\<rparr>))\<close>

text \<open>
  \<^verbatim>\<open>loadWheelDefinitionFromJSON\<close>.  Its argument here is what \<^verbatim>\<open>JSON.parse\<close> makes of the
  text: the parsed value, or the message of the syntax error it throws.
\<close>

definition loadWheelDefinitionFromJSON :: "string + json \<Rightarrow> json completion" where
  "loadWheelDefinitionFromJSON parseResult =
     (case parseResult of
        Inl syntaxError \<Rightarrow>
          Throws \<lparr>message = ''Invalid JSON: '' @ syntaxError, field = None\<rparr>
      | Inr parsed \<Rightarrow>
          (case validateWheelDefinition parsed of
             Throws e \<Rightarrow> Throws e
           | Returns u \<Rightarrow> Returns parsed))"

text \<open>A wheel whose only ring has inner radius 0.9 and outer radius 0.5.\<close>

definition invertedRing :: json where
  "invertedRing =
     JObject [(''slug'', JString ''ring_signs''), (''type'', JString ''signs''),
              (''label'', JString ''Zodiac Signs''), (''orderIndex'', JNumber 0),
              (''radiusInner'', JNumber (9 / 10)), (''radiusOuter'', JNumber (5 / 10)),
              (''dataSource'', JObject [(''kind'', JString ''static_zodiac'')])]"

definition invertedRadiiWheel :: json where
  "invertedRadiiWheel = JObject [(''name'', JString ''Inverted''), (''rings'', JArray [invertedRing])]"

text \<open>A valid ring, and a wheel whose second ring is the inverted one.\<close>

definition signsRing :: json where
  "signsRing =
     JObject [(''slug'', JString ''ring_signs''), (''type'', JString ''signs''),
              (''label'', JString ''Zodiac Signs''), (''orderIndex'', JNumber 0),
              (''radiusInner'', JNumber (85 / 100)), (''radiusOuter'', JNumber 1),
              (''dataSource'', JObject [(''kind'', JString ''static_zodiac'')])]"

definition secondRingInvertedWheel :: json where
  "secondRingInvertedWheel =
     JObject [(''name'', JString ''Inverted''), (''rings'', JArray [signsRing, invertedRing])]"

section \<open>Properties of the angle arithmetic\<close>

lemma normalizeDeg_floor: "normalizeDeg x = x - 360 * of_int \<lfloor>x / 360\<rfloor>"
proof (cases "x < 0")
  case False
  then have "jsTrunc (x / 360) = \<lfloor>x / 360\<rfloor>"
    by (simp add: jsTrunc_def)
  moreover have "0 \<le> x - 360 * of_int \<lfloor>x / 360\<rfloor>"
    using of_int_floor_le [of "x / 360"] by simp
  ultimately show ?thesis
    by (simp add: normalizeDeg_def jsRem_def Let_def)
next
  case True
  then have tr: "jsTrunc (x / 360) = \<lceil>x / 360\<rceil>"
    by (simp add: jsTrunc_def)
  show ?thesis
  proof (cases "of_int \<lfloor>x / 360\<rfloor> = x / 360")
    case True
    then have "\<lceil>x / 360\<rceil> = \<lfloor>x / 360\<rfloor>"
      by (metis ceiling_of_int)
    with tr True show ?thesis
      by (simp add: normalizeDeg_def jsRem_def Let_def)
  next
    case False
    then have c: "\<lceil>x / 360\<rceil> = \<lfloor>x / 360\<rfloor> + 1"
      by (metis ceiling_altdef)
    have "x / 360 < of_int (\<lfloor>x / 360\<rfloor> + 1)"
      by linarith
    then have "x - 360 * of_int (\<lfloor>x / 360\<rfloor> + 1) < 0"
      by (simp add: field_simps)
    with tr c show ?thesis
      by (simp add: normalizeDeg_def jsRem_def Let_def)
  qed
qed

lemma normalizeDeg_lower: "0 \<le> normalizeDeg x"
  using of_int_floor_le [of "x / 360"] by (simp add: normalizeDeg_floor)

lemma normalizeDeg_upper: "normalizeDeg x < 360"
proof -
  have "x / 360 < of_int \<lfloor>x / 360\<rfloor> + 1"
    by linarith
  then show ?thesis
    by (simp add: normalizeDeg_floor field_simps)
qed

lemma normalizeDeg_fixed: "0 \<le> x \<Longrightarrow> x < 360 \<Longrightarrow> normalizeDeg x = x"
proof -
  assume "0 \<le> x" "x < 360"
  then have "\<lfloor>x / 360\<rfloor> = 0"
    by (simp add: floor_eq_iff)
  then show ?thesis
    by (simp add: normalizeDeg_floor)
qed

text \<open>
  In exact arithmetic \<open>normalizeDeg x\<close> lies in the half-open interval from 0 to 360 and
  normalising a second time changes nothing.
\<close>

lemma normalizeDeg_exact_range:
  "0 \<le> normalizeDeg x \<and> normalizeDeg x < 360 \<and> normalizeDeg (normalizeDeg x) = normalizeDeg x"
  using normalizeDeg_lower [of x] normalizeDeg_upper [of x]
  by (simp add: normalizeDeg_fixed)

section \<open>The round trip in exact arithmetic\<close>

subsection \<open>Congruence modulo a full turn\<close>

lemma cong360_refl: "cong360 x x"
proof -
  have "x = x + 360 * of_int 0" by simp
  then show ?thesis unfolding cong360_def ..
qed


lemma cong360_trans: "cong360 x y \<Longrightarrow> cong360 y z \<Longrightarrow> cong360 x z"
proof -
  assume "cong360 x y" "cong360 y z"
  then obtain k j :: int where "x = y + 360 * of_int k" "y = z + 360 * of_int j"
    unfolding cong360_def by blast
  then have "x = z + 360 * of_int (k + j)" by simp
  then show ?thesis unfolding cong360_def ..
qed

lemma cong360_add: "cong360 x y \<Longrightarrow> cong360 (a + x) (a + y)"
proof -
  assume "cong360 x y"
  then obtain k :: int where "x = y + 360 * of_int k"
    unfolding cong360_def by blast
  then have "a + x = a + y + 360 * of_int k" by simp
  then show ?thesis unfolding cong360_def ..
qed

lemma cong360_diff: "cong360 x y \<Longrightarrow> cong360 (x - c) (y - c)"
proof -
  assume "cong360 x y"
  then obtain k :: int where "x = y + 360 * of_int k"
    unfolding cong360_def by blast
  then have "x - c = y - c + 360 * of_int k" by simp
  then show ?thesis unfolding cong360_def ..
qed

lemma cong360_minus: "cong360 x y \<Longrightarrow> cong360 (- x) (- y)"
proof -
  assume "cong360 x y"
  then obtain k :: int where "x = y + 360 * of_int k"
    unfolding cong360_def by blast
  then have "- x = - y + 360 * of_int (- k)" by simp
  then show ?thesis unfolding cong360_def ..
qed

lemma cong360_sign:
  assumes "\<sigma> = 1 \<or> \<sigma> = - 1" "cong360 x y"
  shows "cong360 (\<sigma> * x) (\<sigma> * y)"
  using assms cong360_minus [of x y] by auto

lemma cong360_turn_down: "cong360 (x - 360) x"
proof -
  have "x - 360 = x + 360 * of_int (- 1)" by simp
  then show ?thesis unfolding cong360_def ..
qed

lemma cong360_turn_up: "cong360 (x + 360) x"
proof -
  have "x + 360 = x + 360 * of_int 1" by simp
  then show ?thesis unfolding cong360_def ..
qed

lemma normalizeDeg_cong360: "cong360 (normalizeDeg x) x"
proof -
  have "normalizeDeg x = x + 360 * of_int (- \<lfloor>x / 360\<rfloor>)"
    by (simp add: normalizeDeg_floor)
  then show ?thesis unfolding cong360_def ..
qed

lemma normalizeDeg_shift:
  assumes "0 \<le> l" "l < 360"
  shows "normalizeDeg (l + 360 * of_int k) = l"
proof -
  have "(l + 360 * of_int k) / 360 = l / 360 + of_int k"
    by (simp add: field_simps)
  moreover from assms have "\<lfloor>l / 360\<rfloor> = 0"
    by (simp add: floor_eq_iff)
  ultimately have "\<lfloor>(l + 360 * of_int k) / 360\<rfloor> = k"
    by (simp only: floor_add_int [symmetric])
  then show ?thesis
    by (simp add: normalizeDeg_floor)
qed

lemma normalizeDeg_unique:
  assumes "cong360 x l" "0 \<le> l" "l < 360"
  shows "normalizeDeg x = l"
proof -
  from assms(1) obtain k :: int where "x = l + 360 * of_int k"
    unfolding cong360_def by blast
  then show ?thesis
    using normalizeDeg_shift [OF assms(2,3)] by simp
qed

lemma whileAbove180_cong360: "cong360 (whileAbove180 x) x"
proof (induction x rule: whileAbove180.induct)
  case (1 offset)
  show ?case
  proof (cases "offset > 180")
    case True
    with 1 have "cong360 (whileAbove180 (offset - 360)) (offset - 360)"
      by blast
    then have "cong360 (whileAbove180 (offset - 360)) offset"
      using cong360_turn_down cong360_trans by blast
    with True show ?thesis
      by (simp add: whileAbove180.simps [of offset])
  next
    case False
    then show ?thesis
      by (simp add: whileAbove180.simps [of offset] cong360_refl)
  qed
qed

lemma whileBelowNeg180_cong360: "cong360 (whileBelowNeg180 x) x"
proof (induction x rule: whileBelowNeg180.induct)
  case (1 offset)
  show ?case
  proof (cases "offset < - 180")
    case True
    with 1 have "cong360 (whileBelowNeg180 (offset + 360)) (offset + 360)"
      by blast
    then have "cong360 (whileBelowNeg180 (offset + 360)) offset"
      using cong360_turn_up cong360_trans by blast
    with True show ?thesis
      by (simp add: whileBelowNeg180.simps [of offset])
  next
    case False
    then show ?thesis
      by (simp add: whileBelowNeg180.simps [of offset] cong360_refl)
  qed
qed

lemma fold_cong360: "cong360 (whileBelowNeg180 (whileAbove180 x)) x"
  using whileBelowNeg180_cong360 whileAbove180_cong360 cong360_trans by blast

lemma flipSign_cases: "flipSign f = 1 \<or> flipSign f = - 1"
  by (simp add: flipSign_def)

lemma worldToScreenAngle_legacy:
  assumes "legacyModel f"
  shows "worldToScreenAngle l f a =
     Some (normalizeDeg (screenAngleDeg f + flipSign f * whileBelowNeg180 (whileAbove180 (l - a))))"
proof (cases "worldZero f")
  case None
  then show ?thesis
    by (simp add: worldToScreenAngle_def Let_def flipSign_def)
next
  case (Some wz)
  with assms have "screenZero f = None"
    by (simp add: legacyModel_def)
  with Some show ?thesis
    by (simp add: worldToScreenAngle_def Let_def flipSign_def)
qed

lemma screenToWorldLongitude_legacy:
  assumes "legacyModel f"
  shows "screenToWorldLongitude s f a =
     Some (normalizeDeg
       (a + flipSign f * whileBelowNeg180 (whileAbove180 (normalizeDeg s - screenAngleDeg f))))"
proof (cases "worldZero f")
  case None
  then show ?thesis
    by (simp add: screenToWorldLongitude_def Let_def flipSign_def)
next
  case (Some wz)
  with assms have "screenZero f = None"
    by (simp add: legacyModel_def)
  with Some show ?thesis
    by (simp add: screenToWorldLongitude_def Let_def flipSign_def)
qed

text \<open>The common core of both round trips: a sign, a fold and two normalisations.\<close>

lemma roundtrip_core:
  assumes sg: "\<sigma> = 1 \<or> \<sigma> = - 1"
      and f1: "cong360 d1 (l - w)"
      and f2: "cong360 d2 (normalizeDeg (normalizeDeg (z + \<sigma> * d1)) - z)"
      and l: "0 \<le> l" "l < 360"
  shows "normalizeDeg (w + \<sigma> * d2) = l"
proof -
  have "cong360 (normalizeDeg (normalizeDeg (z + \<sigma> * d1))) (z + \<sigma> * d1)"
    using normalizeDeg_cong360 cong360_trans by blast
  then have "cong360 (normalizeDeg (normalizeDeg (z + \<sigma> * d1)) - z) (z + \<sigma> * d1 - z)"
    by (rule cong360_diff)
  then have "cong360 d2 (\<sigma> * d1)"
    using f2 cong360_trans by fastforce
  then have "cong360 (\<sigma> * d2) (\<sigma> * (\<sigma> * d1))"
    using sg cong360_sign by blast
  moreover from sg have "\<sigma> * (\<sigma> * d1) = d1"
    by auto
  ultimately have "cong360 (\<sigma> * d2) (l - w)"
    using f1 cong360_trans by fastforce
  then have "cong360 (w + \<sigma> * d2) (w + (l - w))"
    by (rule cong360_add)
  then show ?thesis
    using normalizeDeg_unique l by simp
qed

lemma legacy_roundtrip:
  assumes "legacyModel f" "0 \<le> l" "l < 360"
  shows "\<exists>s. worldToScreenAngle l f a = Some s \<and> screenToWorldLongitude s f a = Some l"
proof -
  let ?d1 = "whileBelowNeg180 (whileAbove180 (l - a))"
  let ?s = "normalizeDeg (screenAngleDeg f + flipSign f * ?d1)"
  let ?d2 = "whileBelowNeg180 (whileAbove180 (normalizeDeg ?s - screenAngleDeg f))"
  have "normalizeDeg (a + flipSign f * ?d2) = l"
    using flipSign_cases fold_cong360 fold_cong360 assms(2,3) by (rule roundtrip_core)
  then have "screenToWorldLongitude ?s f a = Some l"
    by (simp add: screenToWorldLongitude_legacy [OF assms(1)])
  then show ?thesis
    using worldToScreenAngle_legacy [OF assms(1)] by blast
qed

lemma foldOnce_cong360: "cong360 (foldOnce x) x"
  by (simp add: foldOnce_def Let_def cong360_refl cong360_turn_down cong360_turn_up)

lemma directionFactor_cases:
  assumes "directionFactor d = Some v"
  shows "v = 1 \<or> v = - 1"
  using assms by (auto simp add: directionFactor_def split: option.splits Direction.splits)

lemma zeroPoint_roundtrip:
  assumes wz: "worldZero f = Some wz" and sz: "screenZero f = Some sz"
      and d: "directionFactor (direction f) = Some d"
      and c: "scaleFactor (scale f) = 1 \<or> scaleFactor (scale f) = - 1"
      and l: "0 \<le> l" "l < 360"
  shows "\<exists>s. worldToScreenAngle l f a = Some s \<and> screenToWorldLongitude s f a = Some l"
proof -
  define c where "c = scaleFactor (scale f)"
  define \<sigma> where "\<sigma> = d * c"
  have sg: "\<sigma> = 1 \<or> \<sigma> = - 1"
    using directionFactor_cases [OF d] assms(4) by (auto simp add: \<sigma>_def c_def)
  have c0: "c \<noteq> 0" and dc: "x * d / c = \<sigma> * x" for x
    using directionFactor_cases [OF d] assms(4) by (auto simp add: \<sigma>_def c_def)
  let ?d1 = "foldOnce (normalizeDeg (l - wz))"
  let ?s = "normalizeDeg (sz + \<sigma> * ?d1)"
  let ?d2 = "foldOnce (normalizeDeg ?s - sz)"
  have fw: "worldToScreenAngle l f a = Some ?s"
    by (simp add: worldToScreenAngle_def wz sz d Let_def \<sigma>_def c_def mult.assoc mult.commute mult.left_commute)
  have c1: "cong360 ?d1 (l - wz)"
    using foldOnce_cong360 normalizeDeg_cong360 cong360_trans by blast
  have "normalizeDeg (wz + \<sigma> * ?d2) = l"
    by (rule roundtrip_core [OF sg c1 foldOnce_cong360 l])
  then have "screenToWorldLongitude ?s f a = Some l"
    using c0 by (simp add: screenToWorldLongitude_def wz sz d Let_def dc c_def [symmetric])
  with fw show ?thesis
    by blast
qed

lemma foldOnce_normalized_range:
  "- 180 < foldOnce (normalizeDeg x) \<and> foldOnce (normalizeDeg x) \<le> 180"
  using normalizeDeg_lower [of x] normalizeDeg_upper [of x]
  by (simp add: foldOnce_def Let_def)





lemma cong360_open_unique:
  assumes "cong360 x y" "- 180 \<le> x" "x \<le> 180" "- 180 < y" "y < 180"
  shows "x = y"
proof -
  from assms(1) obtain k :: int where k: "x = y + 360 * of_int k"
    unfolding cong360_def by blast
  with assms(2-5) have "- 360 < 360 * (of_int k :: real)" "360 * (of_int k :: real) < 360"
    by linarith+
  then have "- 1 < k" "k < 1"
    by simp_all
  then have "k = 0"
    by linarith
  with k show ?thesis
    by simp
qed

lemma foldOnce_range:
  assumes "- 360 < x" "x < 360"
  shows "- 180 \<le> foldOnce x \<and> foldOnce x \<le> 180"
  using assms by (simp add: foldOnce_def Let_def)

lemma zeroPoint_roundtrip_reduced:
  assumes wz: "worldZero f = Some wz" and sz: "screenZero f = Some sz"
      and d: "directionFactor (direction f) = Some d"
      and c: "scaleFactor (scale f) \<noteq> 0" "\<bar>scaleFactor (scale f)\<bar> < 1"
      and z: "0 \<le> sz" "sz < 360"
      and l: "0 \<le> l" "l < 360"
  shows "\<exists>s. worldToScreenAngle l f a = Some s \<and> screenToWorldLongitude s f a = Some l"
proof -
  define c where "c = scaleFactor (scale f)"
  define n where "n = foldOnce (normalizeDeg (l - wz))"
  define y where "y = d * n * c"
  define s where "s = normalizeDeg (sz + y)"
  have dd: "d = 1 \<or> d = - 1"
    using directionFactor_cases [OF d] .
  have c0: "c \<noteq> 0" and c1: "\<bar>c\<bar> < 1"
    using c by (simp_all add: c_def)
  have fw: "worldToScreenAngle l f a = Some s"
    by (simp add: worldToScreenAngle_def wz sz d Let_def s_def y_def n_def c_def)
  have "\<bar>n\<bar> \<le> 180"
    using foldOnce_normalized_range [of "l - wz"] by (simp add: n_def abs_le_iff)
  then have "\<bar>n\<bar> * \<bar>c\<bar> \<le> 180 * \<bar>c\<bar>"
    by (simp add: mult_right_mono)
  moreover have "180 * \<bar>c\<bar> < 180"
    using c1 by simp
  moreover have "\<bar>y\<bar> = \<bar>n\<bar> * \<bar>c\<bar>"
    using dd by (auto simp add: y_def abs_mult)
  ultimately have yr: "- 180 < y" "y < 180"
    by linarith+
  have sr: "0 \<le> s" "s < 360"
    by (simp_all add: s_def normalizeDeg_lower normalizeDeg_upper)
  then have ns: "normalizeDeg s = s"
    by (rule normalizeDeg_fixed)
  have "cong360 (s - sz) (sz + y - sz)"
    unfolding s_def by (rule cong360_diff [OF normalizeDeg_cong360])
  then have "cong360 (foldOnce (s - sz)) y"
    using foldOnce_cong360 cong360_trans by fastforce
  moreover have "- 180 \<le> foldOnce (s - sz) \<and> foldOnce (s - sz) \<le> 180"
    using sr z by (intro foldOnce_range) linarith+
  ultimately have fy: "foldOnce (s - sz) = y"
    using yr by (simp add: cong360_open_unique)
  have "y * d / c = n"
    using dd c0 by (auto simp add: y_def)
  moreover have "normalizeDeg (wz + n) = l"
  proof (rule normalizeDeg_unique [OF _ l])
    have "cong360 n (l - wz)"
      unfolding n_def using foldOnce_cong360 normalizeDeg_cong360 cong360_trans by blast
    then have "cong360 (wz + n) (wz + (l - wz))"
      by (rule cong360_add)
    then show "cong360 (wz + n) l"
      by simp
  qed
  ultimately have "screenToWorldLongitude s f a = Some l"
    using c0 by (simp add: screenToWorldLongitude_def wz sz d Let_def ns fy c_def [symmetric])
  with fw show ?thesis
    by blast
qed

lemma numericDirection_factor:
  assumes "numericDirection f"
  shows "\<exists>d. directionFactor (direction f) = Some d"
  using assms by (auto simp add: numericDirection_def directionFactor_def)


text \<open>
  In exact arithmetic, for every world longitude \<open>l\<close> in \<open>[0, 360)\<close> and every anchor
  longitude, converting to a screen angle and inverting returns \<open>l\<close>: for every frame of the
  anchor-relative model (any screen angle, direction and angular flip), and for a frame of the
  zero-point model whose direction is \<open>1\<close>, \<open>-1\<close> or absent when its scale is \<open>1\<close> or
  \<open>-1\<close> (the default included), or is non-zero of magnitude below one with the screen zero
  in \<open>[0, 360)\<close>.
\<close>

lemma roundtrip_exact:
  assumes "0 \<le> l" "l < 360"
      and "legacyModel f \<or>
           numericDirection f \<and>
             (\<bar>scaleFactor (scale f)\<bar> = 1 \<or>
              scaleFactor (scale f) \<noteq> 0 \<and> \<bar>scaleFactor (scale f)\<bar> < 1 \<and>
                (\<exists>sz. screenZero f = Some sz \<and> 0 \<le> sz \<and> sz < 360))"
  shows "\<exists>s. worldToScreenAngle l f a = Some s \<and> screenToWorldLongitude s f a = Some l"
proof (cases "legacyModel f")
  case True
  then show ?thesis
    using assms(1,2) by (rule legacy_roundtrip)
next
  case False
  then obtain wz sz where zs: "worldZero f = Some wz" "screenZero f = Some sz"
    by (auto simp add: legacyModel_def)
  from False assms(3) obtain d where d: "directionFactor (direction f) = Some d"
    using numericDirection_factor by blast
  from False assms(3) consider
      "\<bar>scaleFactor (scale f)\<bar> = 1"
    | "scaleFactor (scale f) \<noteq> 0" "\<bar>scaleFactor (scale f)\<bar> < 1" "0 \<le> sz" "sz < 360"
    using zs by auto
  then show ?thesis
  proof cases
    case 1
    then have "scaleFactor (scale f) = 1 \<or> scaleFactor (scale f) = - 1"
      by linarith
    then show ?thesis
      using zs d assms(1,2) by (intro zeroPoint_roundtrip)
  next
    case 2
    then show ?thesis
      using zs d assms(1,2) by (intro zeroPoint_roundtrip_reduced)
  qed
qed

text \<open>
  A scale of magnitude above one is another matter, rounding apart: with a scale of two the
  forward map sends 100 degrees to 200, and the inverse sends 200 on to 280.
\<close>

lemma zoom_not_inverted:
  "0 \<le> (100::real) \<and> (100::real) < 360 \<and>
   worldToScreenAngle 100 zoomFrame 0 = Some 200 \<and>
   screenToWorldLongitude 200 zoomFrame 0 = Some 280 \<and>
   screenToWorldLongitude 200 zoomFrame 0 \<noteq> Some 100"
  by (simp add: worldToScreenAngle_def screenToWorldLongitude_def zoomFrame_def
        directionFactor_def scaleFactor_def foldOnce_def normalizeDeg_def jsRem_def
        jsTrunc_def Let_def)

section \<open>Rounding\<close>

lemma bitLength_zero: "bitLength 0 = 0"
  by (simp add: bitLength.simps [of 0])

lemma bitLength_le: "n < 2 ^ k \<Longrightarrow> bitLength n \<le> k"
proof (induction k arbitrary: n)
  case 0
  then show ?case
    by (simp add: bitLength_zero)
next
  case (Suc k)
  show ?case
  proof (cases "n = 0")
    case True
    then show ?thesis
      by (simp add: bitLength_zero)
  next
    case False
    from Suc.prems have "n div 2 < 2 ^ k"
      by simp
    then have "bitLength (n div 2) \<le> k"
      by (rule Suc.IH)
    with False show ?thesis
      by (simp add: bitLength.simps [of n])
  qed
qed

lemma bitLength_gt: "2 ^ k \<le> n \<Longrightarrow> k < bitLength n"
proof (induction k arbitrary: n)
  case 0
  then show ?case
    by (simp add: bitLength.simps [of n])
next
  case (Suc k)
  from Suc.prems have "2 ^ k \<le> n div 2"
    by simp
  then have "k < bitLength (n div 2)"
    by (rule Suc.IH)
  moreover have "(0::nat) < 2 ^ Suc k"
    by simp
  with Suc.prems have "n \<noteq> 0"
    by linarith
  ultimately show ?case
    by (simp add: bitLength.simps [of n])
qed

lemma bitLength_eq:
  assumes "2 ^ k \<le> n" "n < 2 ^ Suc k"
  shows "bitLength n = Suc k"
  using bitLength_le [OF assms(2)] bitLength_gt [OF assms(1)] by simp

text \<open>The binade of a number of magnitude at least one, and of one below one.\<close>

lemma binade_large:
  assumes "2 ^ k \<le> \<bar>x\<bar>" "\<bar>x\<bar> < 2 ^ Suc k"
  shows "binade x = int k"
proof -
  have one: "1 \<le> \<bar>x\<bar>"
    using assms(1) one_le_power [of "2::real" k] by linarith
  have "(2::real) ^ k = of_int (2 ^ k)" "(2::real) ^ Suc k = of_int (2 ^ Suc k)"
    by simp_all
  with assms have "2 ^ k \<le> \<lfloor>\<bar>x\<bar>\<rfloor>" "\<lfloor>\<bar>x\<bar>\<rfloor> < 2 ^ Suc k"
    by (simp_all only: le_floor_iff floor_less_iff)
  then have "2 ^ k \<le> nat \<lfloor>\<bar>x\<bar>\<rfloor>" "nat \<lfloor>\<bar>x\<bar>\<rfloor> < 2 ^ Suc k"
    by (simp_all add: le_nat_iff nat_less_iff)
  then have "bitLength (nat \<lfloor>\<bar>x\<bar>\<rfloor>) = Suc k"
    by (rule bitLength_eq)
  with one show ?thesis
    by (simp add: binade_def)
qed

lemma binade_small:
  assumes "1 / 2 ^ Suc k \<le> \<bar>x\<bar>" "\<bar>x\<bar> < 1 / 2 ^ k" "Suc k \<le> 1022"
  shows "binade x = - int (Suc k)"
proof -
  have pos: "0 < \<bar>x\<bar>"
    using assms(1) by (smt (verit) divide_pos_pos zero_less_power zero_less_numeral zero_less_one)
  have small: "\<not> 1 \<le> \<bar>x\<bar>"
  proof -
    have "1 / 2 ^ k \<le> (1::real)"
      by (simp add: field_simps)
    with assms(2) show ?thesis
      by linarith
  qed
  have up: "1 / \<bar>x\<bar> \<le> 2 ^ Suc k"
  proof -
    have "1 \<le> 2 ^ Suc k * \<bar>x\<bar>"
      using assms(1) by (simp add: field_simps)
    with pos show ?thesis
      by (simp add: field_simps)
  qed
  have low: "2 ^ k < 1 / \<bar>x\<bar>"
  proof -
    have "2 ^ k * \<bar>x\<bar> < 1"
      using assms(2) by (simp add: field_simps)
    with pos show ?thesis
      by (simp add: field_simps)
  qed
  have "(2::real) ^ k = of_int (2 ^ k)" "(2::real) ^ Suc k = of_int (2 ^ Suc k)"
    by simp_all
  with up low have "\<lceil>1 / \<bar>x\<bar>\<rceil> \<le> 2 ^ Suc k" "2 ^ k < \<lceil>1 / \<bar>x\<bar>\<rceil>"
    by (simp_all only: ceiling_le_iff less_ceiling_iff)
  then have "nat \<lceil>1 / \<bar>x\<bar>\<rceil> \<le> 2 ^ Suc k" "2 ^ k < nat \<lceil>1 / \<bar>x\<bar>\<rceil>"
    by (simp_all add: nat_le_iff zless_nat_eq_int_zless)
  then have "2 ^ k \<le> nat \<lceil>1 / \<bar>x\<bar>\<rceil> - 1" "nat \<lceil>1 / \<bar>x\<bar>\<rceil> - 1 < 2 ^ Suc k"
    by linarith+
  then have "bitLength (nat \<lceil>1 / \<bar>x\<bar>\<rceil> - 1) = Suc k"
    by (rule bitLength_eq)
  with small assms(3) show ?thesis
    by (simp add: binade_def)
qed

text \<open>Rounding where there is no tie.\<close>

lemma roundEven_near:
  assumes "of_int m - 1 / 2 < x" "x < of_int m + 1 / 2"
  shows "roundEven x = m"
proof (cases "of_int m \<le> x")
  case True
  with assms(2) have "\<lfloor>x\<rfloor> = m"
    by (simp add: floor_unique)
  with assms(2) show ?thesis
    by (simp add: roundEven_def Let_def)
next
  case False
  with assms(1) have "\<lfloor>x\<rfloor> = m - 1"
    by (intro floor_unique) simp_all
  with assms(1) False show ?thesis
    by (simp add: roundEven_def Let_def)
qed

lemma fl_near:
  assumes "x \<noteq> 0" "binade x = e"
      and "of_int m - 1 / 2 < x / pow2 (e - 52)" "x / pow2 (e - 52) < of_int m + 1 / 2"
  shows "fl x = of_int m * pow2 (e - 52)"
  using assms(1,2) roundEven_near [OF assms(3,4)] by (simp add: fl_def)

lemma fl_exact:
  assumes "x \<noteq> 0" "binade x = e" "x / pow2 (e - 52) = of_int m"
  shows "fl x = x"
proof -
  have "of_int m - 1 / 2 < x / pow2 (e - 52)" "x / pow2 (e - 52) < of_int m + 1 / 2"
    by (simp_all add: assms(3))
  with assms(1,2) have "fl x = of_int m * pow2 (e - 52)"
    by (rule fl_near)
  moreover have "pow2 (e - 52) \<noteq> 0"
    by (simp add: pow2_def)
  ultimately show ?thesis
    using assms(3) by (simp add: field_simps)
qed

lemma roundDouble_finite:
  assumes "fl x = y" "\<bar>y\<bar> < 2 ^ 1024"
  shows "roundDouble x = Finite y"
  using assms by (simp add: roundDouble_def Let_def abs_less_iff)

section \<open>The remainder in range\<close>

lemma jsRem_small:
  assumes "\<bar>x\<bar> < m"
  shows "jsRem x m = x"
proof -
  from assms have m: "0 < m"
    by linarith
  with assms have "- 1 < x / m" "x / m < 1"
    by (simp_all add: field_simps)
  then have "jsTrunc (x / m) = 0"
    by (simp add: jsTrunc_def ceiling_eq_iff floor_eq_iff)
  then show ?thesis
    by (simp add: jsRem_def)
qed

lemma normalizeDeg64_fixed:
  assumes "0 \<le> x" "x < 360"
  shows "normalizeDeg64 (Finite x) = Finite x"
  using assms by (simp add: normalizeDeg64_def jsRem_small)

section \<open>A small negative angle\<close>

lemma fl_below_full_turn:
  assumes "- (1 / 2 ^ 45) < x" "x < 0"
  shows "fl (x + 360) = 360"
proof -
  have small: "- 1 < x"
    using assms(1) by (simp add: field_simps)
  have b: "binade (x + 360) = int 8"
    using small assms(2) by (intro binade_large) simp_all
  have "fl (x + 360) = of_int 6333186975989760 * pow2 (8 - 52)"
  proof (rule fl_near)
    show "x + 360 \<noteq> 0"
      using small by simp
    show "binade (x + 360) = 8"
      using b by simp
    show "of_int 6333186975989760 - 1 / 2 < (x + 360) / pow2 (8 - 52)"
      using assms(1) by (simp add: pow2_def field_simps)
    show "(x + 360) / pow2 (8 - 52) < of_int 6333186975989760 + 1 / 2"
      using assms(2) by (simp add: pow2_def field_simps)
  qed
  then show ?thesis
    by (simp add: pow2_def)
qed

lemma normalizeDeg64_small_negative:
  assumes "- (1 / 2 ^ 45) < x" "x < 0"
  shows "normalizeDeg64 (Finite x) = Finite 360"
proof -
  have "\<bar>x\<bar> < 360"
    using assms by (simp add: field_simps)
  then have "jsRem x 360 = x"
    by (rule jsRem_small)
  moreover have "roundDouble (x + 360) = Finite 360"
    by (rule roundDouble_finite [OF fl_below_full_turn [OF assms]]) simp
  ultimately show ?thesis
    using assms(2) by (simp add: normalizeDeg64_def)
qed

lemma normalizeDeg64_full_turn: "normalizeDeg64 (Finite 360) = Finite 0"
  by (simp add: normalizeDeg64_def jsRem_def jsTrunc_def)

lemma fl_tiny: "fl (- (1 / 2 ^ 50)) = - (1 / 2 ^ 50)"
proof (rule fl_exact)
  show "- (1 / 2 ^ 50) \<noteq> (0::real)"
    by simp
  show "binade (- (1 / 2 ^ 50)) = - int (Suc 49)"
    by (rule binade_small) simp_all
  show "- (1 / 2 ^ 50) / pow2 (- int (Suc 49) - 52) = of_int (- (2 ^ 52))"
    by (simp add: pow2_def)
qed

text \<open>
  C6 (evaluation at the failing input).  For the double \<open>-2\<^sup>-\<^sup>5\<^sup>0\<close> the remainder is the
  argument itself, and adding 360 to it rounds to 360: the result is 360, outside
  \<open>[0, 360)\<close>; normalising once more gives 0, another value.
\<close>

theorem normalizeDeg_returns_full_turn:
  "roundDouble (- (1 / 2 ^ 50)) = Finite (- (1 / 2 ^ 50)) \<and>
   normalizeDeg64 (Finite (- (1 / 2 ^ 50))) = Finite 360 \<and>
   normalizeDeg64 (normalizeDeg64 (Finite (- (1 / 2 ^ 50)))) = Finite 0"
proof -
  have "roundDouble (- (1 / 2 ^ 50)) = Finite (- (1 / 2 ^ 50))"
    by (rule roundDouble_finite [OF fl_tiny]) simp
  moreover have "normalizeDeg64 (Finite (- (1 / 2 ^ 50))) = Finite 360"
    by (rule normalizeDeg64_small_negative) simp_all
  ultimately show ?thesis
    by (simp add: normalizeDeg64_full_turn)
qed

text \<open>The same for the double that the literal \<^verbatim>\<open>-1e-20\<close> denotes.\<close>

lemma normalizeDeg64_tiny_literal:
  "normalizeDeg64 (roundDouble (- (1 / 10 ^ 20))) = Finite 360"
proof -
  define y :: real where "y = - (6646139978924579 / 2 ^ 119)"
  have "fl (- (1 / 10 ^ 20)) = of_int (- 6646139978924579) * pow2 (- 67 - 52)"
  proof (rule fl_near)
    show "- (1 / 10 ^ 20) \<noteq> (0::real)"
      by simp
    have "binade (- (1 / 10 ^ 20)) = - int (Suc 66)"
      by (rule binade_small) simp_all
    then show "binade (- (1 / 10 ^ 20)) = - 67"
      by simp
    show "of_int (- 6646139978924579) - 1 / 2 < - (1 / 10 ^ 20) / pow2 (- 67 - 52)"
      by (simp add: pow2_def)
    show "- (1 / 10 ^ 20) / pow2 (- 67 - 52) < of_int (- 6646139978924579) + 1 / 2"
      by (simp add: pow2_def)
  qed
  then have "fl (- (1 / 10 ^ 20)) = y"
    by (simp add: pow2_def y_def)
  then have "roundDouble (- (1 / 10 ^ 20)) = Finite y"
    by (rule roundDouble_finite) (simp add: y_def)
  moreover have "normalizeDeg64 (Finite y) = Finite 360"
    by (rule normalizeDeg64_small_negative) (simp_all add: y_def)
  ultimately show ?thesis
    by (simp only:)
qed

section \<open>The round trip in binary64\<close>

lemma whileAbove64_stop: "\<not> dless (Finite 180) x \<Longrightarrow> whileAbove64 x = Some x"
  by (subst whileAbove64.simps) simp

lemma whileBelowNeg64_stop: "\<not> dless x (Finite (- 180)) \<Longrightarrow> whileBelowNeg64 x = Some x"
  by (subst whileBelowNeg64.simps) simp

lemma fl_threeTenths: "fl (3 / 10) = threeTenths"
proof -
  have "fl (3 / 10) = of_int 5404319552844595 * pow2 (- 2 - 52)"
  proof (rule fl_near)
    show "3 / 10 \<noteq> (0::real)"
      by simp
    have "binade (3 / 10) = - int (Suc 1)"
      by (rule binade_small) simp_all
    then show "binade (3 / 10) = - 2"
      by simp
    show "of_int 5404319552844595 - 1 / 2 < 3 / 10 / pow2 (- 2 - 52)"
      by (simp add: pow2_def)
    show "3 / 10 / pow2 (- 2 - 52) < of_int 5404319552844595 + 1 / 2"
      by (simp add: pow2_def)
  qed
  then show ?thesis
    by (simp add: pow2_def threeTenths_def)
qed

lemma fl_minus_threeTenths: "fl (- threeTenths) = - threeTenths"
proof (rule fl_exact)
  show "- threeTenths \<noteq> 0"
    by (simp add: threeTenths_def)
  show "binade (- threeTenths) = - int (Suc 1)"
    by (rule binade_small) (simp_all add: threeTenths_def)
  show "- threeTenths / pow2 (- int (Suc 1) - 52) = of_int (- 5404319552844595)"
    by (simp add: pow2_def threeTenths_def)
qed

lemma fl_forward_sum: "fl (180 + threeTenths) = 3171871143808205 / 2 ^ 44"
proof -
  have "fl (180 + threeTenths) = of_int 6343742287616410 * pow2 (7 - 52)"
  proof (rule fl_near)
    show "180 + threeTenths \<noteq> 0"
      by (simp add: threeTenths_def)
    have "binade (180 + threeTenths) = int 7"
      by (rule binade_large) (simp_all add: threeTenths_def)
    then show "binade (180 + threeTenths) = 7"
      by simp
    show "of_int 6343742287616410 - 1 / 2 < (180 + threeTenths) / pow2 (7 - 52)"
      by (simp add: pow2_def threeTenths_def)
    show "(180 + threeTenths) / pow2 (7 - 52) < of_int 6343742287616410 + 1 / 2"
      by (simp add: pow2_def threeTenths_def)
  qed
  then show ?thesis
    by (simp add: pow2_def)
qed

lemma fl_inverse_offset: "fl (3171871143808205 / 2 ^ 44 - 180) = 5277655813325 / 2 ^ 44"
proof -
  have e: "3171871143808205 / 2 ^ 44 - 180 = (5277655813325 / 2 ^ 44 :: real)"
    by simp
  have "fl (5277655813325 / 2 ^ 44) = 5277655813325 / 2 ^ 44"
  proof (rule fl_exact)
    show "5277655813325 / 2 ^ 44 \<noteq> (0::real)"
      by simp
    show "binade (5277655813325 / 2 ^ 44) = - int (Suc 1)"
      by (rule binade_small) simp_all
    show "5277655813325 / 2 ^ 44 / pow2 (- int (Suc 1) - 52) = of_int 5404319552844800"
      by (simp add: pow2_def)
  qed
  then show ?thesis
    by (simp only: e)
qed

lemma fl_inverse_sum: "fl (threeTenths - 5277655813325 / 2 ^ 44) = - (205 / 2 ^ 54)"
proof -
  have e: "threeTenths - 5277655813325 / 2 ^ 44 = - (205 / 2 ^ 54)"
    by (simp add: threeTenths_def)
  have "fl (- (205 / 2 ^ 54)) = - (205 / 2 ^ 54)"
  proof (rule fl_exact)
    show "- (205 / 2 ^ 54) \<noteq> (0::real)"
      by simp
    show "binade (- (205 / 2 ^ 54)) = - int (Suc 46)"
      by (rule binade_small) simp_all
    show "- (205 / 2 ^ 54) / pow2 (- int (Suc 46) - 52) = of_int (- 7212796278210560)"
      by (simp add: pow2_def)
  qed
  then show ?thesis
    by (simp only: e)
qed

text \<open>
  C1 (evaluation at the failing input).  The frame of the preset that puts the Ascendant at
  nine o'clock, the anchor at \<^verbatim>\<open>0.3\<close>, the world longitude 0.  The forward transform rounds
  \<open>180 + 0.3\<close> up; the inverse therefore comes \<open>205 \<times> 2\<^sup>-\<^sup>5\<^sup>4\<close> short of 0, and \<^verbatim>\<open>normalizeDeg\<close>
  of that small negative number is 360: the round trip returns 360 for 0.
\<close>

theorem view_frame_roundtrip_returns_full_turn:
  "roundDouble (3 / 10) = Finite threeTenths \<and>
   worldToScreenAngle64 (Finite 0) presetAscLeftFrame (Finite threeTenths) =
     Some (Finite (3171871143808205 / 2 ^ 44)) \<and>
   screenToWorldLongitude64 (Finite (3171871143808205 / 2 ^ 44)) presetAscLeftFrame
     (Finite threeTenths) = Some (Finite 360)"
proof -
  define s :: real where "s = 3171871143808205 / 2 ^ 44"
  define offset :: real where "offset = 5277655813325 / 2 ^ 44"
  define shortfall :: real where "shortfall = 205 / 2 ^ 54"
  have literal: "roundDouble (3 / 10) = Finite threeTenths"
    by (rule roundDouble_finite [OF fl_threeTenths]) (simp add: threeTenths_def)
  have difference: "dsub (Finite 0) (Finite threeTenths) = Finite (- threeTenths)"
    using roundDouble_finite [OF fl_minus_threeTenths] by (simp add: dsub_def threeTenths_def)
  have above: "whileAbove64 (Finite (- threeTenths)) = Some (Finite (- threeTenths))"
    by (rule whileAbove64_stop) (simp add: threeTenths_def)
  have below: "whileBelowNeg64 (Finite (- threeTenths)) = Some (Finite (- threeTenths))"
    by (rule whileBelowNeg64_stop) (simp add: threeTenths_def)
  have sum: "dadd (Finite 180) (Finite threeTenths) = Finite s"
    unfolding s_def using roundDouble_finite [OF fl_forward_sum] by simp
  have screen: "normalizeDeg64 (Finite s) = Finite s"
    by (rule normalizeDeg64_fixed) (simp_all add: s_def)
  have forward: "worldToScreenAngle64 (Finite 0) presetAscLeftFrame (Finite threeTenths) =
                 Some (Finite s)"
    by (simp add: worldToScreenAngle64_def presetAscLeftFrame_def difference above below sum
          screen del: dadd.simps)
  have shifted: "dsub (Finite s) (Finite 180) = Finite offset"
    unfolding s_def offset_def using roundDouble_finite [OF fl_inverse_offset]
    by (simp add: dsub_def)
  have above': "whileAbove64 (Finite offset) = Some (Finite offset)"
    by (rule whileAbove64_stop) (simp add: offset_def)
  have below': "whileBelowNeg64 (Finite offset) = Some (Finite offset)"
    by (rule whileBelowNeg64_stop) (simp add: offset_def)
  have sum': "dadd (Finite threeTenths) (Finite (- offset)) = Finite (- shortfall)"
    unfolding offset_def shortfall_def using roundDouble_finite [OF fl_inverse_sum] by simp
  have world: "normalizeDeg64 (Finite (- shortfall)) = Finite 360"
    by (rule normalizeDeg64_small_negative) (simp_all add: shortfall_def)
  have inverse: "screenToWorldLongitude64 (Finite s) presetAscLeftFrame (Finite threeTenths) =
                 Some (Finite 360)"
    by (simp add: screenToWorldLongitude64_def presetAscLeftFrame_def screen shifted above' below'
          sum' world del: dadd.simps)
  from literal forward inverse show ?thesis
    unfolding s_def by (intro conjI)
qed

text \<open>
  The loops of the anchor-relative model are not always left: at \<open>10\<^sup>1\<^sup>9\<close> adding 360 rounds
  to the same double, so for that anchor longitude the forward transform does not return.
\<close>

lemma fl_hugeAnchor: "fl (- hugeAnchor) = - hugeAnchor"
proof (rule fl_exact)
  show "- hugeAnchor \<noteq> 0"
    by (simp add: hugeAnchor_def)
  show "binade (- hugeAnchor) = int 63"
    by (rule binade_large) (simp_all add: hugeAnchor_def)
  show "- hugeAnchor / pow2 (int 63 - 52) = of_int (- 4882812500000000)"
    by (simp add: pow2_def hugeAnchor_def)
qed

lemma fl_hugeAnchor_step: "fl (- hugeAnchor + 360) = - hugeAnchor"
proof -
  have "fl (- hugeAnchor + 360) = of_int (- 4882812500000000) * pow2 (63 - 52)"
  proof (rule fl_near)
    show "- hugeAnchor + 360 \<noteq> 0"
      by (simp add: hugeAnchor_def)
    have "binade (- hugeAnchor + 360) = int 63"
      by (rule binade_large) (simp_all add: hugeAnchor_def)
    then show "binade (- hugeAnchor + 360) = 63"
      by simp
    show "of_int (- 4882812500000000) - 1 / 2 < (- hugeAnchor + 360) / pow2 (63 - 52)"
      by (simp add: pow2_def hugeAnchor_def)
    show "(- hugeAnchor + 360) / pow2 (63 - 52) < of_int (- 4882812500000000) + 1 / 2"
      by (simp add: pow2_def hugeAnchor_def)
  qed
  then show ?thesis
    by (simp add: pow2_def hugeAnchor_def)
qed

lemma whileBelowNeg64_hugeAnchor: "whileBelowNeg64 (Finite (- hugeAnchor)) = None"
proof (cases "whileBelowNeg64 (Finite (- hugeAnchor))")
  case None
  then show ?thesis .
next
  case (Some y)
  have step: "dadd (Finite (- hugeAnchor)) (Finite 360) = Finite (- hugeAnchor)"
    using roundDouble_finite [OF fl_hugeAnchor_step] by (simp add: hugeAnchor_def)
  have less: "dless (Finite (- hugeAnchor)) (Finite (- 180))"
    by (simp add: hugeAnchor_def)
  have "Finite (- hugeAnchor) \<noteq> Finite (- hugeAnchor)"
  proof (rule whileBelowNeg64.raw_induct
      [where P = "\<lambda>x y. x \<noteq> Finite (- hugeAnchor)", OF _ Some])
    fix f :: "double \<Rightarrow> double option" and x y
    assume IH: "\<And>x y. f x = Some y \<Longrightarrow> x \<noteq> Finite (- hugeAnchor)"
    assume eq: "(if dless x (Finite (- 180)) then f (dadd x (Finite 360)) else Some x) = Some y"
    show "x \<noteq> Finite (- hugeAnchor)"
    proof
      assume x: "x = Finite (- hugeAnchor)"
      with eq less have "f (dadd (Finite (- hugeAnchor)) (Finite 360)) = Some y"
        by (simp del: dadd.simps)
      then have "f (Finite (- hugeAnchor)) = Some y"
        by (simp only: step)
      with IH show False
        by blast
    qed
  qed
  then show ?thesis
    by simp
qed

lemma legacy_loop_never_left:
  "worldToScreenAngle64 (Finite 0) presetAscLeftFrame (Finite hugeAnchor) = None"
proof -
  have difference: "dsub (Finite 0) (Finite hugeAnchor) = Finite (- hugeAnchor)"
    using roundDouble_finite [OF fl_hugeAnchor] by (simp add: dsub_def hugeAnchor_def)
  have above: "whileAbove64 (Finite (- hugeAnchor)) = Some (Finite (- hugeAnchor))"
    by (rule whileAbove64_stop) (simp add: hugeAnchor_def)
  show ?thesis
    by (simp add: worldToScreenAngle64_def presetAscLeftFrame_def difference above
          whileBelowNeg64_hugeAnchor del: dadd.simps)
qed

section \<open>The anchor's screen position\<close>

text \<open>
  C2 (amended).  In the anchor-relative model the anchor lands at the normalised configured
  screen angle, for every direction and angular flip; that is the configured angle itself
  whenever it lies in \<open>[0, 360)\<close>.  For the Ascendant frame at 180 degrees with anchor
  longitude 95, longitude 95 maps to 180 and longitude 185 maps to 90.
\<close>

theorem anchor_fixed_point:
  assumes "legacyModel f"
  shows "worldToScreenAngle a f a = Some (normalizeDeg (screenAngleDeg f)) \<and>
         (0 \<le> screenAngleDeg f \<and> screenAngleDeg f < 360 \<longrightarrow>
            worldToScreenAngle a f a = Some (screenAngleDeg f)) \<and>
         worldToScreenAngle 95 presetAscLeftFrame 95 = Some 180 \<and>
         worldToScreenAngle 185 presetAscLeftFrame 95 = Some 90"
proof -
  have "whileBelowNeg180 (whileAbove180 0) = 0"
    by (simp add: whileAbove180.simps [of 0] whileBelowNeg180.simps [of 0])
  then have g: "worldToScreenAngle a f a = Some (normalizeDeg (screenAngleDeg f))"
    by (simp add: worldToScreenAngle_legacy [OF assms])
  have e1: "worldToScreenAngle 95 presetAscLeftFrame 95 = Some 180"
    by (simp add: worldToScreenAngle_def presetAscLeftFrame_def whileAbove180.simps
          whileBelowNeg180.simps normalizeDeg_def jsRem_def jsTrunc_def Let_def)
  have e2: "worldToScreenAngle 185 presetAscLeftFrame 95 = Some 90"
    by (simp add: worldToScreenAngle_def presetAscLeftFrame_def whileAbove180.simps
          whileBelowNeg180.simps normalizeDeg_def jsRem_def jsTrunc_def Let_def)
  from g e1 e2 show ?thesis
    by (simp add: normalizeDeg_fixed)
qed

theorem anchor_fixed_point_witness:
  "legacyModel presetAscLeftFrame \<and>
   worldToScreenAngle 95 presetAscLeftFrame 95 = Some (screenAngleDeg presetAscLeftFrame) \<and>
   screenAngleDeg presetAscLeftFrame = 180"
  using anchor_fixed_point [of presetAscLeftFrame 95]
  by (simp add: legacyModel_def presetAscLeftFrame_def normalizeDeg_fixed)

text \<open>
  A frame that places the anchor at \<open>-90\<close> degrees: the anchor lands at 270, not at the
  configured value.
\<close>

theorem anchor_fixed_point_counterexample:
  "legacyModel negativeAngleFrame \<and>
   screenAngleDeg negativeAngleFrame = - 90 \<and>
   worldToScreenAngle 95 negativeAngleFrame 95 = Some 270 \<and>
   worldToScreenAngle 95 negativeAngleFrame 95 \<noteq> Some (screenAngleDeg negativeAngleFrame)"
proof -
  have "normalizeDeg (270 + 360 * of_int (- 1)) = 270"
    by (rule normalizeDeg_shift) simp_all
  then have "normalizeDeg (- 90) = 270"
    by simp
  then show ?thesis
    by (simp add: worldToScreenAngle_def legacyModel_def negativeAngleFrame_def
          presetAscLeftFrame_def whileAbove180.simps whileBelowNeg180.simps Let_def)
qed

text \<open>
  The anchor lands at the normalised configured screen angle in binary64 as well: the
  difference of the anchor longitude with itself is exactly zero, and adding zero to the
  configured angle, a double, does not round.
\<close>

lemma fl_zero: "fl 0 = 0"
  by (simp add: fl_def)

lemma roundDouble_zero: "roundDouble 0 = Finite 0"
  by (simp add: roundDouble_def fl_zero)

lemma anchor_fixed_point_binary64:
  assumes "legacyModel f" "roundDouble (screenAngleDeg f) = Finite (screenAngleDeg f)"
  shows "worldToScreenAngle64 (Finite a) f (Finite a) =
         Some (normalizeDeg64 (Finite (screenAngleDeg f)))"
proof -
  have difference: "dsub (Finite a) (Finite a) = Finite 0"
    by (simp add: dsub_def roundDouble_zero)
  have above: "whileAbove64 (Finite 0) = Some (Finite 0)"
    by (rule whileAbove64_stop) simp
  have below: "whileBelowNeg64 (Finite 0) = Some (Finite 0)"
    by (rule whileBelowNeg64_stop) simp
  have sum: "dadd (Finite (screenAngleDeg f)) (Finite 0) = Finite (screenAngleDeg f)"
    using assms(2) by simp
  have flip: "dsub (Finite (screenAngleDeg f))
                (dsub (Finite (screenAngleDeg f)) (Finite (screenAngleDeg f))) =
              Finite (screenAngleDeg f)"
    using assms(2) by (simp add: dsub_def roundDouble_zero)
  from assms(1) show ?thesis
    by (auto simp add: worldToScreenAngle64_def legacyModel_def difference above below sum flip
          Let_def simp del: dadd.simps split: option.splits)
qed

section \<open>The zero-point formula\<close>



section \<open>Lock rule matching\<close>

text \<open>
  C5 (amended).  A rule whose house, sign or angle subject has no list applies to every
  element of that kind; a subject whose list is present but empty applies to none; a house
  subject with indices 1 and 10 applies to houses 1 and 10 only; and a rule never applies to
  an element of another kind than its subject's.
\<close>

theorem lock_rule_wildcard:
  "(subject rule = LockSubjectHouse None \<longrightarrow> lockRuleApplies rule houseKind elementId) \<and>
   (subject rule = LockSubjectSign None \<longrightarrow> lockRuleApplies rule signKind elementId) \<and>
   (subject rule = LockSubjectAngle None \<longrightarrow> lockRuleApplies rule angleKind elementId) \<and>
   (subject rule = LockSubjectHouse (Some []) \<longrightarrow> \<not> lockRuleApplies rule houseKind elementId) \<and>
   (subject rule = LockSubjectSign (Some []) \<longrightarrow> \<not> lockRuleApplies rule signKind elementId) \<and>
   (subject rule = LockSubjectAngle (Some []) \<longrightarrow> \<not> lockRuleApplies rule angleKind elementId) \<and>
   (subject rule = LockSubjectHouse (Some [1, 10]) \<longrightarrow>
      lockRuleApplies rule houseKind elementId = (elementId = IdNumber 1 \<or> elementId = IdNumber 10)) \<and>
   (subjectKind (subject rule) \<noteq> elementType \<longrightarrow> \<not> lockRuleApplies rule elementType elementId)"
  by (auto simp add: lockRuleApplies_def)

theorem lock_rule_wildcard_witness:
  "lockRuleApplies \<lparr>subject = LockSubjectHouse None, frame = houses_lock, mode = follow_anchor,
       followAnchor = None\<rparr> houseKind (IdNumber 7) \<and>
   \<not> lockRuleApplies emptyHouseLock houseKind (IdNumber 7) \<and>
   lockRuleApplies \<lparr>subject = LockSubjectHouse (Some [1, 10]), frame = screen, mode = exact,
       followAnchor = None\<rparr> houseKind (IdNumber 10) \<and>
   \<not> lockRuleApplies \<lparr>subject = LockSubjectHouse (Some [1, 10]), frame = screen, mode = exact,
       followAnchor = None\<rparr> houseKind (IdNumber 2) \<and>
   \<not> lockRuleApplies \<lparr>subject = LockSubjectHouse None, frame = houses_lock, mode = follow_anchor,
       followAnchor = None\<rparr> signKind (IdNumber 7)"
  using lock_rule_wildcard [of "\<lparr>subject = LockSubjectHouse None, frame = houses_lock,
            mode = follow_anchor, followAnchor = None\<rparr>" "IdNumber 7" signKind]
        lock_rule_wildcard [of emptyHouseLock "IdNumber 7" houseKind]
        lock_rule_wildcard [of "\<lparr>subject = LockSubjectHouse (Some [1, 10]), frame = screen,
            mode = exact, followAnchor = None\<rparr>" "IdNumber 10" houseKind]
        lock_rule_wildcard [of "\<lparr>subject = LockSubjectHouse (Some [1, 10]), frame = screen,
            mode = exact, followAnchor = None\<rparr>" "IdNumber 2" houseKind]
  by (simp add: emptyHouseLock_def)

text \<open>
  A house subject whose index list is present but empty applies to no house.
\<close>

theorem lock_rule_wildcard_counterexample:
  "subject emptyHouseLock = LockSubjectHouse (Some []) \<and>
   \<not> lockRuleApplies emptyHouseLock houseKind (IdNumber 1)"
  by (simp add: emptyHouseLock_def lockRuleApplies_def)

section \<open>Frame keys and the transform\<close>

text \<open>
  C4 (evaluation at the failing input).  The mirrored zero-point preset frame, resolved with
  world zero 95 and with world zero 5, has one and the same key, whatever the number
  formatting; yet longitude 185 maps to screen angle 0 under the first and to 270 under the
  second.  The key leaves out the world zero, the screen zero and the scale.
\<close>

theorem frame_key_collision:
  "viewFrameToKey numberToString zeroPointMirroredFrame =
     viewFrameToKey numberToString zeroPointMirroredFrame5 \<and>
   worldToScreenAngle 185 zeroPointMirroredFrame a = Some 0 \<and>
   worldToScreenAngle 185 zeroPointMirroredFrame5 a = Some 270"
proof -
  have "normalizeDeg (270 + 360 * of_int (- 1)) = 270"
    by (rule normalizeDeg_shift) simp_all
  then have n: "normalizeDeg (- 90) = 270"
    by simp
  have "normalizeDeg 180 = 180"
    by (rule normalizeDeg_fixed) simp_all
  then have "worldToScreenAngle 185 zeroPointMirroredFrame5 a = Some 270"
    by (simp add: worldToScreenAngle_def zeroPointMirroredFrame5_def zeroPointMirroredFrame_def
          directionFactor_def scaleFactor_def foldOnce_def Let_def n)
  moreover have "worldToScreenAngle 185 zeroPointMirroredFrame a = Some 0"
    by (simp add: worldToScreenAngle_def zeroPointMirroredFrame_def directionFactor_def
          scaleFactor_def foldOnce_def normalizeDeg_def jsRem_def jsTrunc_def Let_def)
  ultimately show ?thesis
    by (simp add: viewFrameToKey_def zeroPointMirroredFrame5_def zeroPointMirroredFrame_def)
qed

section \<open>Version strings and the migration loop\<close>

subsection \<open>Decimal strings\<close>

lemma below_ten_cases:
  "d < 10 \<Longrightarrow> d = 0 \<or> d = 1 \<or> d = 2 \<or> d = 3 \<or> d = 4 \<or> d = 5 \<or> d = 6 \<or> d = 7 \<or> d = 8 \<or> d = (9::nat)"
  by arith

lemma digitChar_isDigit: "d < 10 \<Longrightarrow> isDigit (digitChar d)"
  by (drule below_ten_cases) (auto simp add: isDigit_def digitChar_def)

lemma digitValue_digitChar: "d < 10 \<Longrightarrow> digitValue (digitChar d) = d"
  by (drule below_ten_cases) (auto simp add: digitValue_def digitChar_def)

lemma isDigit_not_dot: "isDigit c \<Longrightarrow> c \<noteq> CHR ''.''"
  by (auto simp add: isDigit_def)

lemma showNat_digits: "list_all isDigit (showNat n)"
proof (induction n rule: showNat.induct)
  case (1 n)
  show ?case
  proof (cases "n < 10")
    case True
    then show ?thesis
      by (simp add: showNat.simps [of n] digitChar_isDigit)
  next
    case False
    with 1 have "list_all isDigit (showNat (n div 10))"
      by simp
    with False show ?thesis
      by (simp add: showNat.simps [of n] digitChar_isDigit)
  qed
qed

lemma showNat_nonempty: "showNat n \<noteq> []"
  by (simp add: showNat.simps [of n])

lemma decimalValue_showNat: "decimalValue (showNat n) = n"
proof (induction n rule: showNat.induct)
  case (1 n)
  show ?case
  proof (cases "n < 10")
    case True
    then show ?thesis
      by (simp add: decimalValue_def showNat.simps [of n] digitValue_digitChar)
  next
    case False
    with 1 have "decimalValue (showNat (n div 10)) = n div 10"
      by simp
    with False show ?thesis
      by (simp add: decimalValue_def showNat.simps [of n] digitValue_digitChar)
  qed
qed

subsection \<open>Rounding to a double\<close>

lemma toDouble_below: "n < 2 ^ 53 \<Longrightarrow> toDouble n = enat n"
  by (simp add: toDouble_def bitLength_le)

lemma toDouble_limit: "toDouble (2 ^ 53) = enat (2 ^ 53)"
proof -
  have "bitLength (2 ^ 53) = Suc 53"
    by (rule bitLength_eq) simp_all
  then show ?thesis
    by (simp add: toDouble_def Let_def)
qed

lemma toDouble_limit_plus_one: "toDouble (2 ^ 53 + 1) = enat (2 ^ 53)"
proof -
  have "bitLength (2 ^ 53 + 1) = Suc 53"
    by (rule bitLength_eq) simp_all
  then show ?thesis
    by (simp add: toDouble_def Let_def)
qed

lemma toDouble_exact: "n \<le> 2 ^ 53 \<Longrightarrow> toDouble n = enat n"
  using toDouble_below [of n] toDouble_limit by (cases "n = 2 ^ 53") simp_all

lemma toDouble_plus_one:
  assumes "n \<le> 2 ^ 53"
  shows "\<exists>m. toDouble (n + 1) = enat m \<and> m \<le> 2 ^ 53"
proof (cases "n = 2 ^ 53")
  case True
  then show ?thesis
    using toDouble_limit_plus_one by simp
next
  case False
  with assms have "n + 1 \<le> 2 ^ 53"
    by simp
  then show ?thesis
    using toDouble_exact by blast
qed

subsection \<open>Reading and printing versions\<close>

lemma toNumber_digits:
  "list_all isDigit p \<Longrightarrow> decimalValue p \<le> 2 ^ 53 \<Longrightarrow> toNumber p = Some (enat (decimalValue p))"
  by (simp add: toNumber_def toDouble_exact)

lemma toNumber_showNat: "n \<le> 2 ^ 53 \<Longrightarrow> toNumber (showNat n) = Some (enat n)"
  using toNumber_digits [of "showNat n"] by (simp add: showNat_digits decimalValue_showNat)

lemma numberText_safe: "n \<le> 2 ^ 53 \<Longrightarrow> numberText (Some (enat n)) = showNat n"
  by (simp add: numberText_def)

lemma splitOn_no_sep:
  "sep \<notin> set xs \<Longrightarrow> splitOn sep xs = [xs]"
  by (induction xs) auto

lemma splitOn_append_sep:
  "sep \<notin> set xs \<Longrightarrow> splitOn sep (xs @ sep # rest) = xs # splitOn sep rest"
  by (induction xs) auto

lemma showNat_no_dot: "CHR ''.'' \<notin> set (showNat n)"
  using showNat_digits [of n] isDigit_not_dot by (auto simp add: list_all_iff)

lemma splitOn_versionString:
  "splitOn CHR ''.'' (versionString a b c) = [showNat a, showNat b, showNat c]"
  by (simp add: versionString_def splitOn_append_sep splitOn_no_sep showNat_no_dot)

lemma versionNumbers_versionString:
  assumes "a \<le> 2 ^ 53" "b \<le> 2 ^ 53" "c \<le> 2 ^ 53"
  shows "versionNumbers (versionString a b c) = [Some (enat a), Some (enat b), Some (enat c)]"
  using assms by (simp add: versionNumbers_def splitOn_versionString toNumber_showNat)

lemma isValidVersion_versionString: "isValidVersion (versionString a b c)"
  by (simp add: isValidVersion_def splitOn_versionString showNat_digits showNat_nonempty)

lemma safeVersion_parts:
  assumes "safeVersion v"
  obtains a b c where "exactVersion v = [a, b, c]" "a \<le> 2 ^ 53" "b \<le> 2 ^ 53" "c \<le> 2 ^ 53"
    "versionNumbers v = [Some (enat a), Some (enat b), Some (enat c)]"
proof -
  from assms have len: "length (splitOn CHR ''.'' v) = 3"
    and digits: "list_all (\<lambda>p. p \<noteq> [] \<and> list_all isDigit p) (splitOn CHR ''.'' v)"
    and small: "list_all (\<lambda>n. n \<le> 2 ^ 53) (map decimalValue (splitOn CHR ''.'' v))"
    by (simp_all add: safeVersion_def isValidVersion_def exactVersion_def Let_def)
  from len obtain p q r where parts: "splitOn CHR ''.'' v = [p, q, r]"
    by (auto simp add: length_Suc_conv numeral_3_eq_3)
  from digits small parts have
    "toNumber p = Some (enat (decimalValue p))"
    "toNumber q = Some (enat (decimalValue q))"
    "toNumber r = Some (enat (decimalValue r))"
    by (simp_all add: toNumber_digits)
  then have "versionNumbers v =
      [Some (enat (decimalValue p)), Some (enat (decimalValue q)), Some (enat (decimalValue r))]"
    by (simp add: versionNumbers_def parts)
  moreover have "exactVersion v = [decimalValue p, decimalValue q, decimalValue r]"
    by (simp add: exactVersion_def parts)
  moreover from small parts have
    "decimalValue p \<le> 2 ^ 53" "decimalValue q \<le> 2 ^ 53" "decimalValue r \<le> 2 ^ 53"
    by simp_all
  ultimately show ?thesis
    using that by blast
qed

lemma getNextVersion_safe:
  assumes "versionNumbers v = [Some (enat a), Some (enat b), Some (enat c)]"
      and "a \<le> 2 ^ 53" "b \<le> 2 ^ 53" "c < 2 ^ 53"
  shows "getNextVersion v = Some (versionString a b (c + 1))"
proof -
  from assms(4) have "toDouble (c + 1) = enat (c + 1)"
    by (simp add: toDouble_exact)
  with assms show ?thesis
    by (simp add: getNextVersion_def plusOne_def versionString_def numberText_safe)
qed

lemma getNextVersion_bounded:
  assumes "versionNumbers v = [Some (enat a), Some (enat b), Some (enat c)]"
      and "a \<le> 2 ^ 53" "b \<le> 2 ^ 53" "c \<le> 2 ^ 53"
  shows "\<exists>c'. getNextVersion v = Some (versionString a b c') \<and> c' \<le> 2 ^ 53"
proof -
  from toDouble_plus_one [OF assms(4)] obtain m where
    m: "toDouble (c + 1) = enat m" "m \<le> 2 ^ 53"
    by blast
  with assms have "getNextVersion v = Some (versionString a b m)"
    by (simp add: getNextVersion_def plusOne_def versionString_def numberText_safe)
  with m(2) show ?thesis
    by blast
qed

lemma compareVersions_numbers:
  assumes "versionNumbers v = [Some (enat a), Some (enat b), Some (enat c)]"
      and "versionNumbers t = [Some (enat a'), Some (enat b'), Some (enat c')]"
  shows "compareVersions v t =
         (if a < a' then - 1 else if a' < a then 1
          else if b < b' then - 1 else if b' < b then 1
          else if c < c' then - 1 else if c' < c then 1 else 0)"
  using assms by (simp add: compareVersions_def orZero_def)

subsection \<open>The loop\<close>

lemma migrationLoop_step:
  assumes "migs (cv @ ''->'' @ nv) = None \<or> migs (cv @ ''->'' @ nv) = Some []"
      and "compareVersions cv t < 0"
      and "getNextVersion cv = Some nv"
  shows "migrationLoop migs t (cur, cv, errs) =
         migrationLoop migs t (cur\<lparr>version := Some nv\<rparr>, nv, errs)"
  using assms by (subst migrationLoop.simps) auto

lemma migrationLoop_stop:
  assumes "\<not> compareVersions cv t < 0"
  shows "migrationLoop migs t (cur, cv, errs) = Some (cur, cv, errs)"
  using assms by (subst migrationLoop.simps) simp

lemma migrationLoop_patch_gap:
  assumes t: "versionNumbers t = [Some (enat a), Some (enat b), Some (enat c')]"
      and bounds: "a \<le> 2 ^ 53" "b \<le> 2 ^ 53" "c' \<le> 2 ^ 53"
      and cv: "versionNumbers cv = [Some (enat a), Some (enat b), Some (enat k)]"
      and less: "k < c'"
      and unregistered:
        "list_all (\<lambda>key. migs key = None \<or> migs key = Some []) (stepKeys (c' - k) cv)"
  shows "migrationLoop migs t (cur, cv, errs) =
         Some (cur\<lparr>version := Some (versionString a b c')\<rparr>, versionString a b c', errs)"
  using cv less unregistered
proof (induction "c' - k" arbitrary: k cv cur)
  case 0
  then show ?case by simp
next
  case (Suc n)
  let ?nv = "versionString a b (k + 1)"
  from Suc.prems(2) bounds(3) have k: "k < 2 ^ 53"
    by simp
  have lt: "compareVersions cv t < 0"
    using Suc.prems(2) by (simp add: compareVersions_numbers [OF Suc.prems(1) t])
  have nv: "getNextVersion cv = Some ?nv"
    using Suc.prems(1) bounds(1,2) k by (rule getNextVersion_safe)
  from Suc.hyps(2) have dist: "c' - k = Suc n"
    by simp
  from Suc.prems(3) have
    key: "migs (cv @ ''->'' @ ?nv) = None \<or> migs (cv @ ''->'' @ ?nv) = Some []"
    and rest: "list_all (\<lambda>key. migs key = None \<or> migs key = Some []) (stepKeys n ?nv)"
    by (simp_all add: dist nv)
  have step: "migrationLoop migs t (cur, cv, errs) =
              migrationLoop migs t (cur\<lparr>version := Some ?nv\<rparr>, ?nv, errs)"
    using key lt nv by (rule migrationLoop_step)
  from k have k1: "k + 1 \<le> 2 ^ 53"
    by simp
  have nvn: "versionNumbers ?nv = [Some (enat a), Some (enat b), Some (enat (k + 1))]"
    using bounds(1,2) k1 by (rule versionNumbers_versionString)
  show ?case
  proof (cases "k + 1 = c'")
    case True
    have "compareVersions ?nv t =
         (if a < a then - 1 else if a < a then 1
          else if b < b then - 1 else if b < b then 1
          else if k + 1 < c' then - 1 else if c' < k + 1 then 1 else 0)"
      by (rule compareVersions_numbers [OF nvn t])
    with True have "\<not> compareVersions ?nv t < 0"
      by simp
    then have "migrationLoop migs t (cur\<lparr>version := Some ?nv\<rparr>, ?nv, errs) =
               Some (cur\<lparr>version := Some ?nv\<rparr>, ?nv, errs)"
      by (rule migrationLoop_stop)
    with step True show ?thesis
      by simp
  next
    case False
    with Suc.prems(2) have less': "k + 1 < c'"
      by simp
    from Suc.hyps(2) have n: "n = c' - (k + 1)"
      by simp
    from rest have rest': "list_all (\<lambda>key. migs key = None \<or> migs key = Some [])
                             (stepKeys (c' - (k + 1)) ?nv)"
      by (simp only: n)
    have "migrationLoop migs t (cur\<lparr>version := Some ?nv\<rparr>, ?nv, errs) =
        Some (cur\<lparr>version := Some ?nv\<rparr>\<lparr>version := Some (versionString a b c')\<rparr>,
              versionString a b c', errs)"
      using n nvn less' rest' by (rule Suc.hyps(1))
    with step show ?thesis
      by simp
  qed
qed

lemma isValidVersion_nonempty: "isValidVersion v \<Longrightarrow> v \<noteq> []"
  by (auto simp add: isValidVersion_def)

lemma migrate_backwards:
  assumes "version d = Some v" "safeVersion v" "safeVersion t" "newerThan v t"
  shows "migrateWheelDefinition migs d t =
         Some \<lparr>success = False, migrated = None,
               errors = Some [''Cannot migrate backwards from '' @ v @ '' to '' @ t]\<rparr>"
proof -
  from assms(2) obtain a b c where
    v: "exactVersion v = [a, b, c]"
       "versionNumbers v = [Some (enat a), Some (enat b), Some (enat c)]"
    by (rule safeVersion_parts)
  from assms(3) obtain a' b' c' where
    t: "exactVersion t = [a', b', c']"
       "versionNumbers t = [Some (enat a'), Some (enat b'), Some (enat c')]"
    by (rule safeVersion_parts)
  from assms(4) have "a' < a \<or> (a = a' \<and> (b' < b \<or> (b = b' \<and> c' < c)))"
    by (simp add: newerThan_def v(1) t(1))
  then have "compareVersions v t = 1"
    by (auto simp add: compareVersions_numbers [OF v(2) t(2)])
  moreover from assms(2,3) have "isValidVersion v" "isValidVersion t"
    by (simp_all add: safeVersion_def)
  ultimately show ?thesis
    using assms(1) isValidVersion_nonempty [of v]
    by (simp add: migrateWheelDefinition_def migrationFailure_def)
qed

lemma migrate_patch_gap:
  assumes "version d = Some v" "safeVersion v" "safeVersion t"
      and "patchGap v t" "unregisteredSteps migs v t"
  shows "migrateWheelDefinition migs d t =
         Some \<lparr>success = True, migrated = Some (d\<lparr>version := Some (canonicalVersion t)\<rparr>),
               errors = None\<rparr>"
proof -
  from assms(2) obtain a b c where
    v: "exactVersion v = [a, b, c]" "a \<le> 2 ^ 53" "b \<le> 2 ^ 53" "c \<le> 2 ^ 53"
       "versionNumbers v = [Some (enat a), Some (enat b), Some (enat c)]"
    by (rule safeVersion_parts)
  from assms(3) obtain a' b' c' where
    t: "exactVersion t = [a', b', c']" "a' \<le> 2 ^ 53" "b' \<le> 2 ^ 53" "c' \<le> 2 ^ 53"
       "versionNumbers t = [Some (enat a'), Some (enat b'), Some (enat c')]"
    by (rule safeVersion_parts)
  from assms(4) have gap: "a = a'" "b = b'" "c < c'"
    by (simp_all add: patchGap_def v(1) t(1))
  have tn: "versionNumbers t = [Some (enat a), Some (enat b), Some (enat c')]"
    using t(5) gap by simp
  have lt: "compareVersions v t = - 1"
    using gap(3) by (simp add: compareVersions_numbers [OF v(5) tn])
  have "patchDistance v t = c' - c"
    by (simp add: patchDistance_def v(1) t(1))
  with assms(5) have
    "list_all (\<lambda>key. migs key = None \<or> migs key = Some []) (stepKeys (c' - c) v)"
    by (simp add: unregisteredSteps_def)
  with tn v(2,3) t(4) v(5) gap(3)
  have "migrationLoop migs t (d, v, []) =
        Some (d\<lparr>version := Some (versionString a b c')\<rparr>, versionString a b c', [])"
    by (rule migrationLoop_patch_gap)
  moreover have "canonicalVersion t = versionString a b c'"
    using gap by (simp add: canonicalVersion_def t(1))
  moreover from assms(2,3) have "isValidVersion v" "isValidVersion t"
    by (simp_all add: safeVersion_def)
  ultimately show ?thesis
    using assms(1) lt isValidVersion_nonempty [of v]
    by (simp add: migrateWheelDefinition_def)
qed

subsection \<open>A target ahead in the major or minor component\<close>

lemma migrationLoop_returns_no_gap:
  assumes "migrationLoop migs t st = Some y"
  shows "\<not> (noMigrations migs \<and>
            (\<exists>a b k a' b' c'.
               versionNumbers (fst (snd st)) = [Some (enat a), Some (enat b), Some (enat k)] \<and>
               versionNumbers t = [Some (enat a'), Some (enat b'), Some (enat c')] \<and>
               a \<le> 2 ^ 53 \<and> b \<le> 2 ^ 53 \<and> k \<le> 2 ^ 53 \<and> (a < a' \<or> (a = a' \<and> (b < b' \<or> (b = b' \<and> 2 ^ 53 < c'))))))"
proof (rule migrationLoop.raw_induct
    [where P = "\<lambda>m t s y. \<not> (noMigrations m \<and>
            (\<exists>a b k a' b' c'.
               versionNumbers (fst (snd s)) = [Some (enat a), Some (enat b), Some (enat k)] \<and>
               versionNumbers t = [Some (enat a'), Some (enat b'), Some (enat c')] \<and>
               a \<le> 2 ^ 53 \<and> b \<le> 2 ^ 53 \<and> k \<le> 2 ^ 53 \<and> (a < a' \<or> (a = a' \<and> (b < b' \<or> (b = b' \<and> 2 ^ 53 < c'))))))",
     OF _ assms])
  fix f :: "(string \<rightharpoonup> MigrationFunction list) \<Rightarrow> string \<Rightarrow>
            WheelDefinitionWithPresets \<times> string \<times> string list \<Rightarrow>
            (WheelDefinitionWithPresets \<times> string \<times> string list) option"
  fix m t st y
  assume IH: "\<And>m t s y. f m t s = Some y \<Longrightarrow> \<not> (noMigrations m \<and>
            (\<exists>a b k a' b' c'.
               versionNumbers (fst (snd s)) = [Some (enat a), Some (enat b), Some (enat k)] \<and>
               versionNumbers t = [Some (enat a'), Some (enat b'), Some (enat c')] \<and>
               a \<le> 2 ^ 53 \<and> b \<le> 2 ^ 53 \<and> k \<le> 2 ^ 53 \<and> (a < a' \<or> (a = a' \<and> (b < b' \<or> (b = b' \<and> 2 ^ 53 < c'))))))"
  assume eq: "(case st of (current, currentVersion, errs) \<Rightarrow>
        if compareVersions currentVersion t < 0 then
          (case getNextVersion currentVersion of
             None \<Rightarrow>
               Some (current, currentVersion,
                     errs @ [''Cannot determine next version after '' @ currentVersion])
           | Some nextVersion \<Rightarrow>
               (case m (currentVersion @ ''->'' @ nextVersion) of
                  None \<Rightarrow>
                    f m t (current\<lparr>version := Some nextVersion\<rparr>, nextVersion, errs)
                | Some migrationFunctions \<Rightarrow>
                    if migrationFunctions = [] then
                      f m t (current\<lparr>version := Some nextVersion\<rparr>, nextVersion, errs)
                    else
                      (case applyMigrations migrationFunctions current of
                         Inl thrown \<Rightarrow>
                           Some (current, currentVersion,
                                 errs @ [''Migration failed for '' @ currentVersion @ ''->''
                                         @ nextVersion @ '': ''
                                         @ (case thrown of Some m \<Rightarrow> m
                                            | None \<Rightarrow> ''Unknown error'')])
                       | Inr next \<Rightarrow>
                           f m t (next\<lparr>version := Some nextVersion\<rparr>, nextVersion, errs))))
        else Some st) = Some y"
  show "\<not> (noMigrations m \<and>
            (\<exists>a b k a' b' c'.
               versionNumbers (fst (snd st)) = [Some (enat a), Some (enat b), Some (enat k)] \<and>
               versionNumbers t = [Some (enat a'), Some (enat b'), Some (enat c')] \<and>
               a \<le> 2 ^ 53 \<and> b \<le> 2 ^ 53 \<and> k \<le> 2 ^ 53 \<and> (a < a' \<or> (a = a' \<and> (b < b' \<or> (b = b' \<and> 2 ^ 53 < c'))))))"
  proof
    assume inv: "noMigrations m \<and>
            (\<exists>a b k a' b' c'.
               versionNumbers (fst (snd st)) = [Some (enat a), Some (enat b), Some (enat k)] \<and>
               versionNumbers t = [Some (enat a'), Some (enat b'), Some (enat c')] \<and>
               a \<le> 2 ^ 53 \<and> b \<le> 2 ^ 53 \<and> k \<le> 2 ^ 53 \<and> (a < a' \<or> (a = a' \<and> (b < b' \<or> (b = b' \<and> 2 ^ 53 < c')))))"
    obtain cur cv errs where st: "st = (cur, cv, errs)"
      by (cases st) auto
    from inv st obtain a b k a' b' c' where
      cv: "versionNumbers cv = [Some (enat a), Some (enat b), Some (enat k)]" and
      t: "versionNumbers t = [Some (enat a'), Some (enat b'), Some (enat c')]" and
      bounds: "a \<le> 2 ^ 53" "b \<le> 2 ^ 53" "k \<le> 2 ^ 53" and
      gap: "a < a' \<or> (a = a' \<and> (b < b' \<or> (b = b' \<and> 2 ^ 53 < c')))"
      by auto
    have lt: "compareVersions cv t < 0"
      using gap bounds(3) by (auto simp add: compareVersions_numbers [OF cv t])
    from getNextVersion_bounded [OF cv bounds] obtain k' where
      nv: "getNextVersion cv = Some (versionString a b k')" and k': "k' \<le> 2 ^ 53"
      by blast
    let ?nv = "versionString a b k'"
    have "m (cv @ ''->'' @ ?nv) = None \<or> m (cv @ ''->'' @ ?nv) = Some []"
      using inv by (simp add: noMigrations_def)
    then have "f m t (cur\<lparr>version := Some ?nv\<rparr>, ?nv, errs) = Some y"
      using eq st lt nv by auto
    then have "\<not> (noMigrations m \<and>
            (\<exists>a b k a' b' c'.
               versionNumbers (fst (snd (cur\<lparr>version := Some ?nv\<rparr>, ?nv, errs))) =
                 [Some (enat a), Some (enat b), Some (enat k)] \<and>
               versionNumbers t = [Some (enat a'), Some (enat b'), Some (enat c')] \<and>
               a \<le> 2 ^ 53 \<and> b \<le> 2 ^ 53 \<and> k \<le> 2 ^ 53 \<and> (a < a' \<or> (a = a' \<and> (b < b' \<or> (b = b' \<and> 2 ^ 53 < c'))))))"
      by (rule IH)
    moreover have "versionNumbers ?nv = [Some (enat a), Some (enat b), Some (enat k')]"
      using bounds(1,2) k' by (rule versionNumbers_versionString)
    ultimately show False
      using inv t bounds(1,2) k' gap by auto
  qed
qed

lemma migrate_stuck:
  assumes "version d = Some v" "isValidVersion v" "isValidVersion t" "noMigrations migs"
      and v: "versionNumbers v = [Some (enat a), Some (enat b), Some (enat c)]"
      and bounds: "a \<le> 2 ^ 53" "b \<le> 2 ^ 53" "c \<le> 2 ^ 53"
      and t: "versionNumbers t = [Some (enat a'), Some (enat b'), Some (enat c')]"
      and gap: "a < a' \<or> (a = a' \<and> (b < b' \<or> (b = b' \<and> 2 ^ 53 < c')))"
  shows "migrateWheelDefinition migs d t = None"
proof -
  have lt: "compareVersions v t = - 1"
    using gap bounds(3) by (auto simp add: compareVersions_numbers [OF v t])
  have "migrationLoop migs t (d, v, []) = None"
  proof (cases "migrationLoop migs t (d, v, [])")
    case None
    then show ?thesis .
  next
    case (Some y)
    from migrationLoop_returns_no_gap [OF Some] assms(4) v bounds t gap show ?thesis
      by auto
  qed
  then show ?thesis
    using assms(1-3) lt isValidVersion_nonempty [of v]
    by (simp add: migrateWheelDefinition_def)
qed

lemma migrate_diverges:
  assumes "version d = Some v" "safeVersion v" "safeVersion t"
      and "noMigrations migs" "minorGap v t"
  shows "migrateWheelDefinition migs d t = None"
proof -
  from assms(2) obtain a b c where
    v: "exactVersion v = [a, b, c]" "a \<le> 2 ^ 53" "b \<le> 2 ^ 53" "c \<le> 2 ^ 53"
       "versionNumbers v = [Some (enat a), Some (enat b), Some (enat c)]"
    by (rule safeVersion_parts)
  from assms(3) obtain a' b' c' where
    t: "exactVersion t = [a', b', c']"
       "versionNumbers t = [Some (enat a'), Some (enat b'), Some (enat c')]"
    by (rule safeVersion_parts)
  from assms(5) have gap: "a < a' \<or> (a = a' \<and> (b < b' \<or> (b = b' \<and> 2 ^ 53 < c')))"
    by (auto simp add: minorGap_def v(1) t(1))
  from assms(2,3) have "isValidVersion v" "isValidVersion t"
    by (simp_all add: safeVersion_def)
  with assms(1) show ?thesis
    using assms(4) v(5) v(2-4) t(2) gap by (rule migrate_stuck)
qed

lemma safeVersion_1_0_0: "safeVersion ''1.0.0''"
  by (simp add: safeVersion_def isValidVersion_def isDigit_def exactVersion_def decimalValue_def
        digitValue_def)

lemma safeVersion_1_1_0: "safeVersion ''1.1.0''"
  by (simp add: safeVersion_def isValidVersion_def isDigit_def exactVersion_def decimalValue_def
        digitValue_def)

section \<open>Registry lookup\<close>

lemma replaceWhitespaceRuns_run:
  assumes "list_all isWhitespace w"
  shows "replaceWhitespaceRuns True (w @ b) = replaceWhitespaceRuns True b"
  using assms by (induction w) auto

lemma replaceWhitespaceRuns_runs:
  assumes "list_all isWhitespace w1" "w1 \<noteq> []" "list_all isWhitespace w2" "w2 \<noteq> []"
  shows "replaceWhitespaceRuns r (a @ w1 @ b) = replaceWhitespaceRuns r (a @ w2 @ b)"
proof (induction a arbitrary: r)
  case Nil
  obtain c1 t1 c2 t2 where w: "w1 = c1 # t1" "w2 = c2 # t2"
    using assms(2,4) by (meson list.exhaust)
  with assms(1,3) show ?case
    by (cases r) (simp_all add: replaceWhitespaceRuns_run)
next
  case (Cons c a)
  then show ?case
    by simp
qed

lemma upper_digit6: "list_all digit6 upperLetters"
  by (simp add: upperLetters_def)

lemma whitespace_digit6: "isWhitespace c \<Longrightarrow> \<not> digit6 c"
  by (auto simp add: isWhitespace_def)

lemma letters_length: "length upperLetters = length lowerLetters"
  by (simp add: upperLetters_def lowerLetters_def)

lemma isWhitespace_lower:
  assumes "isWhitespace c"
  shows "toLowerChar c = c"
proof -
  have "c \<notin> set upperLetters"
    using whitespace_digit6 [OF assms] upper_digit6 unfolding list_all_iff by blast
  then have "map_of (zip upperLetters lowerLetters) c = None"
    by (simp add: map_of_zip_is_None [OF letters_length])
  then show ?thesis
    by (simp only: toLowerChar_def option.case)
qed

lemma toLowerCase_whitespace:
  "list_all isWhitespace w \<Longrightarrow> toLowerCase w = w"
  by (induction w) (simp_all add: toLowerCase_def isWhitespace_lower)

lemma normalizeWheelName_runs:
  assumes "list_all isWhitespace w1" "w1 \<noteq> []" "list_all isWhitespace w2" "w2 \<noteq> []"
  shows "normalizeWheelName (a @ w1 @ b) = normalizeWheelName (a @ w2 @ b)"
proof -
  have split: "toLowerCase (a @ w @ b) = toLowerCase a @ toLowerCase w @ toLowerCase b" for w
    by (simp add: toLowerCase_def)
  have "replaceWhitespaceRuns False (toLowerCase a @ w1 @ toLowerCase b) =
        replaceWhitespaceRuns False (toLowerCase a @ w2 @ toLowerCase b)"
    using assms by (rule replaceWhitespaceRuns_runs)
  then show ?thesis
    unfolding normalizeWheelName_def split
    by (simp only: toLowerCase_whitespace [OF assms(1)] toLowerCase_whitespace [OF assms(3)])
qed

lemma normalizeWheelName_same_case:
  assumes "toLowerCase n1 = toLowerCase n2"
  shows "normalizeWheelName n1 = normalizeWheelName n2"
  using assms by (simp add: normalizeWheelName_def)

lemma get_after_register:
  assumes "normalizeWheelName n = normalizeWheelName (name d)"
  shows "getWheelDefinition (registerWheelDefinition d reg) n = Some d"
  using assms by (simp add: getWheelDefinition_def registerWheelDefinition_def)

lemma standard_name_key: "normalizeWheelName ''Standard Natal Wheel'' = ''standard-natal-wheel''"
  by (simp add: normalizeWheelName_def toLowerCase_def toLowerChar_def isWhitespace_def
        upperLetters_def lowerLetters_def)

lemma standard_lookup_key: "normalizeWheelName ''standard natal wheel'' = ''standard-natal-wheel''"
  by (simp add: normalizeWheelName_def toLowerCase_def toLowerChar_def isWhitespace_def
        upperLetters_def lowerLetters_def)

lemma get_after_register_other:
  assumes "normalizeWheelName n \<noteq> normalizeWheelName (name d)"
  shows "getWheelDefinition (registerWheelDefinition d reg) n = getWheelDefinition reg n"
  using assms by (simp add: getWheelDefinition_def registerWheelDefinition_def)

lemma vedic_key: "normalizeWheelName ''Vedic Natal Wheel'' = ''vedic-natal-wheel''"
  by (simp add: normalizeWheelName_def toLowerCase_def toLowerChar_def isWhitespace_def
        upperLetters_def lowerLetters_def)

text \<open>
  C9.  Lookup goes through the normalised name, and a registered definition shadows the
  built-in: after registering \<open>d\<close>, every name with the key of \<open>d\<close>'s name returns \<open>d\<close>, and
  every name with another key returns what it returned before.  Names that differ in letter
  case only (the accented capitals of Latin-1 included), or in the length and kind of their
  whitespace runs only (the no-break space included), look up the same definition.  In
  particular a definition registered under the name ``Standard Natal Wheel'' is what
  ``standard natal wheel'' returns.
\<close>

theorem registry_precedence:
  "(normalizeWheelName n = normalizeWheelName (name d) \<longrightarrow>
      getWheelDefinition (registerWheelDefinition d reg) n = Some d) \<and>
   (normalizeWheelName n \<noteq> normalizeWheelName (name d) \<longrightarrow>
      getWheelDefinition (registerWheelDefinition d reg) n = getWheelDefinition reg n) \<and>
   (toLowerCase p = toLowerCase q \<longrightarrow>
      getWheelDefinition reg p = getWheelDefinition reg q) \<and>
   (list_all isWhitespace u \<and> u \<noteq> [] \<and> list_all isWhitespace v \<and> v \<noteq> [] \<longrightarrow>
      getWheelDefinition reg (a @ u @ b) = getWheelDefinition reg (a @ v @ b)) \<and>
   (name d = ''Standard Natal Wheel'' \<longrightarrow>
      getWheelDefinition (registerWheelDefinition d reg) ''standard natal wheel'' = Some d)"
proof (intro conjI impI)
  assume "normalizeWheelName n = normalizeWheelName (name d)"
  then show "getWheelDefinition (registerWheelDefinition d reg) n = Some d"
    by (rule get_after_register)
next
  assume "normalizeWheelName n \<noteq> normalizeWheelName (name d)"
  then show "getWheelDefinition (registerWheelDefinition d reg) n = getWheelDefinition reg n"
    by (rule get_after_register_other)
next
  assume "toLowerCase p = toLowerCase q"
  then have "normalizeWheelName p = normalizeWheelName q"
    by (rule normalizeWheelName_same_case)
  then show "getWheelDefinition reg p = getWheelDefinition reg q"
    by (simp add: getWheelDefinition_def)
next
  assume "list_all isWhitespace u \<and> u \<noteq> [] \<and> list_all isWhitespace v \<and> v \<noteq> []"
  then have "normalizeWheelName (a @ u @ b) = normalizeWheelName (a @ v @ b)"
    by (simp add: normalizeWheelName_runs)
  then show "getWheelDefinition reg (a @ u @ b) = getWheelDefinition reg (a @ v @ b)"
    by (simp add: getWheelDefinition_def)
next
  assume "name d = ''Standard Natal Wheel''"
  then have "normalizeWheelName ''standard natal wheel'' = normalizeWheelName (name d)"
    by (simp only: standard_name_key standard_lookup_key)
  then show "getWheelDefinition (registerWheelDefinition d reg) ''standard natal wheel'' = Some d"
    by (rule get_after_register)
qed

theorem registry_precedence_witness:
  "name userStandardNatal = ''Standard Natal Wheel'' \<and>
   getWheelDefinition (registerWheelDefinition userStandardNatal Map.empty)
     ''standard natal wheel'' = Some userStandardNatal \<and>
   version userStandardNatal \<noteq> version standardNatal \<and>
   getWheelDefinition Map.empty ''standard natal wheel'' = Some standardNatal \<and>
   getWheelDefinition (registerWheelDefinition userStandardNatal Map.empty)
     ''Vedic Natal Wheel'' = None \<and>
   getWheelDefinition (registerWheelDefinition userStandardNatal Map.empty)
     (''STANDARD'' @ [CHR 0xA0, CHR 0x09] @ ''Natal Wheel'') = Some userStandardNatal"
proof -
  let ?reg = "registerWheelDefinition userStandardNatal Map.empty"
  have n: "name userStandardNatal = ''Standard Natal Wheel''"
    by (simp add: userStandardNatal_def standardNatal_def)
  note t = registry_precedence
            [where n = "''Vedic Natal Wheel''" and d = userStandardNatal and reg = Map.empty
               and p = "''a''" and q = "''A''"
               and u = "[CHR 0xA0, CHR 0x09]" and v = "'' ''"
               and a = "''STANDARD''" and b = "''Natal Wheel''"]
  have t4: "name userStandardNatal = ''Standard Natal Wheel'' \<longrightarrow>
      getWheelDefinition ?reg ''standard natal wheel'' = Some userStandardNatal"
    using t by (elim conjE)
  have g: "getWheelDefinition ?reg ''standard natal wheel'' = Some userStandardNatal"
    by (rule mp [OF t4 n])
  have u: "version userStandardNatal \<noteq> version standardNatal"
    by (simp add: userStandardNatal_def standardNatal_def)
  have b: "getWheelDefinition Map.empty ''standard natal wheel'' = Some standardNatal"
    by (simp add: getWheelDefinition_def standard_lookup_key)
  have t2: "normalizeWheelName ''Vedic Natal Wheel'' \<noteq> normalizeWheelName (name userStandardNatal) \<longrightarrow>
      getWheelDefinition ?reg ''Vedic Natal Wheel'' = getWheelDefinition Map.empty ''Vedic Natal Wheel''"
    using t by (elim conjE)
  have k: "normalizeWheelName ''Vedic Natal Wheel'' \<noteq> normalizeWheelName (name userStandardNatal)"
    by (simp add: n vedic_key standard_name_key)
  have "getWheelDefinition Map.empty ''Vedic Natal Wheel'' = None"
    by (simp add: getWheelDefinition_def vedic_key)
  with mp [OF t2 k] have o: "getWheelDefinition ?reg ''Vedic Natal Wheel'' = None"
    by simp
  have t3: "list_all isWhitespace [CHR 0xA0, CHR 0x09] \<and> [CHR 0xA0, CHR 0x09] \<noteq> [] \<and>
      list_all isWhitespace '' '' \<and> '' '' \<noteq> [] \<longrightarrow>
      getWheelDefinition ?reg (''STANDARD'' @ [CHR 0xA0, CHR 0x09] @ ''Natal Wheel'') =
      getWheelDefinition ?reg (''STANDARD'' @ '' '' @ ''Natal Wheel'')"
    using registry_precedence
            [where n = "''Vedic Natal Wheel''" and d = userStandardNatal and reg = ?reg
               and p = "''a''" and q = "''A''"
               and u = "[CHR 0xA0, CHR 0x09]" and v = "'' ''"
               and a = "''STANDARD''" and b = "''Natal Wheel''"]
    by (elim conjE)
  have ws: "list_all isWhitespace [CHR 0xA0, CHR 0x09] \<and> [CHR 0xA0, CHR 0x09] \<noteq> [] \<and>
      list_all isWhitespace '' '' \<and> '' '' \<noteq> []"
    by (simp add: isWhitespace_def)
  have w: "normalizeWheelName (''STANDARD'' @ '' '' @ ''Natal Wheel'') =
           normalizeWheelName (name userStandardNatal)"
    by (simp add: n normalizeWheelName_def toLowerCase_def toLowerChar_def isWhitespace_def
          upperLetters_def lowerLetters_def)
  have "getWheelDefinition ?reg (''STANDARD'' @ '' '' @ ''Natal Wheel'') = Some userStandardNatal"
    using w by (rule get_after_register)
  with mp [OF t3 ws]
  have s: "getWheelDefinition ?reg (''STANDARD'' @ [CHR 0xA0, CHR 0x09] @ ''Natal Wheel'') =
           Some userStandardNatal"
    by (simp only:)
  from n g u b o s show ?thesis
    by (intro conjI)
qed

section \<open>Migration results\<close>

subsection \<open>Evaluation at versions\<close>

lemma versionNumbers_1_0_0: "versionNumbers ''1.0.0'' = [Some (enat 1), Some (enat 0), Some (enat 0)]"
  by (simp add: versionNumbers_def toNumber_def isDigit_def decimalValue_def digitValue_def
        toDouble_exact)

lemma showNat_digit: "n < 10 \<Longrightarrow> showNat n = [digitChar n]"
  by (simp add: showNat.simps [of n])

lemmas versionString_eval = versionString_def showNat_digit digitChar_def

lemma toDouble_past_limit: "toDouble 9007199254740993 = enat 9007199254740992"
  using toDouble_limit_plus_one by simp

lemma toDouble_two_past_limit: "toDouble 9007199254740994 = enat 9007199254740994"
proof -
  have "bitLength (2 ^ 53 + 2) = Suc 53"
    by (rule bitLength_eq) simp_all
  then have "toDouble (2 ^ 53 + 2) = enat (2 ^ 53 + 2)"
    by (simp add: toDouble_def Let_def)
  then show ?thesis
    by simp
qed

lemma stepKeys_1_0_0:
  "stepKeys 3 ''1.0.0'' = [''1.0.0->1.0.1'', ''1.0.1->1.0.2'', ''1.0.2->1.0.3'']"
proof -
  have n0: "getNextVersion ''1.0.0'' = Some ''1.0.1''"
    using getNextVersion_safe [OF versionNumbers_1_0_0] by (simp add: versionString_eval)
  have "versionNumbers ''1.0.1'' = [Some (enat 1), Some (enat 0), Some (enat 1)]"
    using versionNumbers_versionString [of 1 0 1] by (simp add: versionString_eval)
  from getNextVersion_safe [OF this]
  have n1: "getNextVersion ''1.0.1'' = Some ''1.0.2''"
    by (simp add: versionString_eval)
  have "versionNumbers ''1.0.2'' = [Some (enat 1), Some (enat 0), Some (enat 2)]"
    using versionNumbers_versionString [of 1 0 2] by (simp add: versionString_eval)
  from getNextVersion_safe [OF this]
  have n2: "getNextVersion ''1.0.2'' = Some ''1.0.3''"
    by (simp add: versionString_eval)
  show ?thesis
    by (simp add: numeral_3_eq_3 n0 n1 n2)
qed

subsection \<open>Unmigratable transitions\<close>

text \<open>
  C8 (amended).  For a definition with a valid version and a valid target version, the
  components of both at most \<open>2\<^sup>5\<^sup>3\<close>: migrating backwards (the source version is the greater)
  returns the failure result with the message ``Cannot migrate backwards from ... to ...'';
  and when the target is ahead in the patch component only and none of the steps from the
  source to the target has a migration function registered, the migration returns success,
  the definition unchanged but for its version, which is the target's printed without
  leading zeros.
\<close>

theorem migration_results:
  assumes "version d = Some v" "safeVersion v" "safeVersion t"
  shows "(newerThan v t \<longrightarrow>
            migrateWheelDefinition migs d t =
              Some \<lparr>success = False, migrated = None,
                    errors = Some [''Cannot migrate backwards from '' @ v @ '' to '' @ t]\<rparr>) \<and>
         (patchGap v t \<and> unregisteredSteps migs v t \<longrightarrow>
            migrateWheelDefinition migs d t =
              Some \<lparr>success = True,
                    migrated = Some (d\<lparr>version := Some (canonicalVersion t)\<rparr>),
                    errors = None\<rparr>)"
  using assms by (simp add: migrate_backwards migrate_patch_gap)

theorem migration_results_witness:
  "migrateWheelDefinition laterStepRegistry standardNatal ''0.9.0'' =
     Some \<lparr>success = False, migrated = None,
           errors = Some [''Cannot migrate backwards from 1.0.0 to 0.9.0'']\<rparr> \<and>
   migrateWheelDefinition laterStepRegistry standardNatal ''1.0.03'' =
     Some \<lparr>success = True, migrated = Some (standardNatal\<lparr>version := Some ''1.0.3''\<rparr>),
           errors = None\<rparr>"
proof -
  have v: "version standardNatal = Some ''1.0.0''"
    by (simp add: standardNatal_def)
  have e: "exactVersion ''1.0.0'' = [1, 0, 0]" "exactVersion ''0.9.0'' = [0, 9, 0]"
    "exactVersion ''1.0.03'' = [1, 0, 3]"
    by (simp_all add: exactVersion_def decimalValue_def digitValue_def)
  have ok: "safeVersion ''1.0.0''" "safeVersion ''0.9.0''" "safeVersion ''1.0.03''"
    by (simp_all add: safeVersion_def e) (simp_all add: isValidVersion_def isDigit_def)
  have older: "newerThan ''1.0.0'' ''0.9.0''"
    by (simp add: newerThan_def e)
  have gap: "patchGap ''1.0.0'' ''1.0.03''"
    by (simp add: patchGap_def e)
  have unregistered: "unregisteredSteps laterStepRegistry ''1.0.0'' ''1.0.03''"
    by (simp add: unregisteredSteps_def patchDistance_def e stepKeys_1_0_0 laterStepRegistry_def)
  have canon: "canonicalVersion ''1.0.03'' = ''1.0.3''"
    by (simp add: canonicalVersion_def e versionString_eval)
  from migration_results [OF v ok(1) ok(2), of laterStepRegistry]
       migration_results [OF v ok(1) ok(3), of laterStepRegistry] older gap unregistered canon
  show ?thesis
    by simp
qed

text \<open>
  With nothing registered, migrating the built-in definition from 1.0.0 to 1.0.2 succeeds:
  the unregistered steps are passed over, the version alone is advanced.
\<close>

theorem migration_results_counterexample:
  "migrateWheelDefinition Map.empty standardNatal ''1.0.2'' =
     Some \<lparr>success = True, migrated = Some (standardNatal\<lparr>version := Some ''1.0.2''\<rparr>),
           errors = None\<rparr>"
proof -
  have e: "exactVersion ''1.0.0'' = [1, 0, 0]" "exactVersion ''1.0.2'' = [1, 0, 2]"
    by (simp_all add: exactVersion_def decimalValue_def digitValue_def)
  have ok: "safeVersion ''1.0.0''" "safeVersion ''1.0.2''"
    by (simp_all add: safeVersion_def e) (simp_all add: isValidVersion_def isDigit_def)
  have "canonicalVersion ''1.0.2'' = ''1.0.2''"
    by (simp add: canonicalVersion_def e versionString_eval)
  moreover have "migrateWheelDefinition Map.empty standardNatal ''1.0.2'' =
         Some \<lparr>success = True,
               migrated = Some (standardNatal\<lparr>version := Some (canonicalVersion ''1.0.2'')\<rparr>),
               errors = None\<rparr>"
    by (rule migrate_patch_gap [where v = "''1.0.0''"])
       (simp_all add: ok standardNatal_def patchGap_def e unregisteredSteps_def list_all_iff)
  ultimately show ?thesis
    by simp
qed

text \<open>
  The bound on the components is needed.  \<^verbatim>\<open>Number\<close> reads both 9007199254740993 and
  9007199254740992 as \<open>2\<^sup>5\<^sup>3\<close>, so migrating from the former patch to the latter is taken as
  ``already at target'' and succeeds; and adding one to \<open>2\<^sup>5\<^sup>3\<close> gives \<open>2\<^sup>5\<^sup>3\<close> again, so the loop
  towards a patch beyond it is never left.
\<close>

lemma backwards_beyond_limit:
  "newerThan ''1.0.9007199254740993'' ''1.0.9007199254740992'' \<and>
   migrateWheelDefinition Map.empty pastLimitNatal ''1.0.9007199254740992'' =
     Some \<lparr>success = True, migrated = Some pastLimitNatal, errors = None\<rparr>"
proof -
  have n: "versionNumbers ''1.0.9007199254740993'' =
             [Some (enat 1), Some (enat 0), Some (enat 9007199254740992)]"
    "versionNumbers ''1.0.9007199254740992'' =
             [Some (enat 1), Some (enat 0), Some (enat 9007199254740992)]"
    by (simp_all add: versionNumbers_def toNumber_def isDigit_def decimalValue_def digitValue_def
          toDouble_exact toDouble_past_limit)
  have "compareVersions ''1.0.9007199254740993'' ''1.0.9007199254740992'' = 0"
    by (simp add: compareVersions_numbers [OF n])
  moreover have "isValidVersion ''1.0.9007199254740993''" "isValidVersion ''1.0.9007199254740992''"
    by (simp_all add: isValidVersion_def isDigit_def)
  ultimately have "migrateWheelDefinition Map.empty pastLimitNatal ''1.0.9007199254740992'' =
     Some \<lparr>success = True, migrated = Some pastLimitNatal, errors = None\<rparr>"
    by (simp add: migrateWheelDefinition_def pastLimitNatal_def)
  moreover have "newerThan ''1.0.9007199254740993'' ''1.0.9007199254740992''"
    by (simp add: newerThan_def exactVersion_def decimalValue_def digitValue_def)
  ultimately show ?thesis
    by simp
qed

lemma patch_gap_beyond_limit:
  "patchGap ''1.0.9007199254740992'' ''1.0.9007199254740994'' \<and>
   getNextVersion ''1.0.9007199254740992'' = Some ''1.0.9007199254740992'' \<and>
   migrateWheelDefinition Map.empty limitNatal ''1.0.9007199254740994'' = None"
proof -
  have v: "versionNumbers ''1.0.9007199254740992'' =
           [Some (enat 1), Some (enat 0), Some (enat 9007199254740992)]"
    by (simp add: versionNumbers_def toNumber_def isDigit_def decimalValue_def digitValue_def
          toDouble_exact)
  have t: "versionNumbers ''1.0.9007199254740994'' =
           [Some (enat 1), Some (enat 0), Some (enat 9007199254740994)]"
    by (simp add: versionNumbers_def toNumber_def isDigit_def decimalValue_def digitValue_def
          toDouble_exact toDouble_two_past_limit)
  have valid: "isValidVersion ''1.0.9007199254740992''" "isValidVersion ''1.0.9007199254740994''"
    by (simp_all add: isValidVersion_def isDigit_def)
  have "migrateWheelDefinition Map.empty limitNatal ''1.0.9007199254740994'' = None"
    by (rule migrate_stuck [OF _ valid _ v _ _ _ t])
       (simp_all add: limitNatal_def noMigrations_def)
  moreover have "patchGap ''1.0.9007199254740992'' ''1.0.9007199254740994''"
    by (simp add: patchGap_def exactVersion_def decimalValue_def digitValue_def)
  moreover have "showNat 9007199254740992 = ''9007199254740992''"
    by (simp add: showNat.simps digitChar_def)
  then have "getNextVersion ''1.0.9007199254740992'' = Some ''1.0.9007199254740992''"
    by (simp add: getNextVersion_def v plusOne_def toDouble_past_limit numberText_safe
          showNat_digit digitChar_def)
  ultimately show ?thesis
    by simp
qed

text \<open>
  C10 (evaluation at the failing input).  With nothing registered, migrating the built-in
  definition from 1.0.0 to 1.1.0 never returns: the loop only ever increments the patch
  component, and 1.0.k stays below 1.1.0 for every k (the patch, a double, stops changing
  at \<open>2\<^sup>5\<^sup>3\<close>).
\<close>

theorem migration_never_returns:
  "version standardNatal = Some ''1.0.0'' \<and> isValidVersion ''1.0.0'' \<and> isValidVersion ''1.1.0'' \<and>
   migrateWheelDefinition Map.empty standardNatal ''1.1.0'' = None"
proof -
  have "migrateWheelDefinition Map.empty standardNatal ''1.1.0'' = None"
    by (rule migrate_diverges [where v = "''1.0.0''"])
       (simp_all add: standardNatal_def safeVersion_1_0_0 safeVersion_1_1_0 noMigrations_def
          minorGap_def exactVersion_def decimalValue_def digitValue_def)
  then show ?thesis
    by (simp add: standardNatal_def isValidVersion_def isDigit_def)
qed

section \<open>Validation failures of the loader\<close>

lemma validateRingDefinition_inverted:
  assumes "getProp ring ''slug'' = Some (JString s)" "s \<noteq> []"
      and "getProp ring ''type'' = Some (JString ty)"
          "ty \<in> set [''signs'', ''houses'', ''planets'', ''aspects'']"
      and "getProp ring ''label'' = Some (JString l)" "l \<noteq> []"
      and "getProp ring ''orderIndex'' = Some (JNumber oi)"
      and "getProp ring ''radiusInner'' = Some (JNumber ri)" "0 \<le> ri" "ri \<le> 1"
      and "getProp ring ''radiusOuter'' = Some (JNumber ro)" "0 \<le> ro" "ro \<le> 1"
      and "ro \<le> ri"
  shows "validateRingDefinition ring i =
         Throws \<lparr>message = ''Ring at index '' @ showNat i @ '' must have radiusInner < radiusOuter'',
                 field = Some (''rings['' @ showNat i @ ''].radius'')\<rparr>"
proof -
  obtain properties where ring: "ring = JObject properties"
    using assms(1) by (cases ring) simp_all
  have obj: "truthy (Some ring)" "typeOf (Some ring) = ''object''"
    by (simp_all add: ring)
  have ok: "\<not> outsideUnit (getProp ring ''radiusInner'')" "\<not> outsideUnit (getProp ring ''radiusOuter'')"
    using assms(8-13) by simp_all
  have ge: "numberGe (getProp ring ''radiusInner'') (getProp ring ''radiusOuter'')"
    using assms(8,11,14) by simp
  have ty: "includesString [''signs'', ''houses'', ''planets'', ''aspects''] (getProp ring ''type'')"
    using assms(3,4) by (simp only: includesString.simps)
  show ?thesis
    unfolding validateRingDefinition_def Let_def
    using obj ok ge ty assms(1,2,5,6,7) by simp
qed

lemma invertedRing_throws:
  "validateRingDefinition invertedRing 0 =
     Throws \<lparr>message = ''Ring at index 0 must have radiusInner < radiusOuter'',
             field = Some ''rings[0].radius''\<rparr>"
proof -
  have "validateRingDefinition invertedRing 0 =
         Throws \<lparr>message = ''Ring at index '' @ showNat 0 @ '' must have radiusInner < radiusOuter'',
                 field = Some (''rings['' @ showNat 0 @ ''].radius'')\<rparr>"
    by (rule validateRingDefinition_inverted
          [where s = "''ring_signs''" and ty = "''signs''" and l = "''Zodiac Signs''"
             and oi = 0 and ri = "9 / 10" and ro = "5 / 10"])
       (simp_all add: invertedRing_def)
  moreover have "showNat 0 = ''0''"
    by (simp add: showNat.simps digitChar_def)
  ultimately show ?thesis
    by simp
qed

lemma invertedRadiiWheel_throws:
  "validateWheelDefinition invertedRadiiWheel =
     Throws \<lparr>message = ''Ring at index 0 must have radiusInner < radiusOuter'',
             field = Some ''rings[0].radius''\<rparr>"
proof -
  have "validateRings [invertedRing] 0 =
     Throws \<lparr>message = ''Ring at index 0 must have radiusInner < radiusOuter'',
             field = Some ''rings[0].radius''\<rparr>"
    by (simp add: invertedRing_throws)
  moreover have "getProp invertedRadiiWheel ''name'' = Some (JString ''Inverted'')"
    "getProp invertedRadiiWheel ''rings'' = Some (JArray [invertedRing])"
    by (simp_all add: invertedRadiiWheel_def)
  moreover have "truthy (Some invertedRadiiWheel)" "typeOf (Some invertedRadiiWheel) = ''object''"
    by (simp_all add: invertedRadiiWheel_def)
  ultimately show ?thesis
    unfolding validateWheelDefinition_def by simp
qed

lemma validateRings_first_invalid:
  assumes "\<forall>j < length pre. validateRingDefinition (pre ! j) (i + j) = Returns ()"
      and "validateRingDefinition ring (i + length pre) = Throws e"
  shows "validateRings (pre @ ring # post) i = Throws e"
  using assms
proof (induction pre arbitrary: i)
  case Nil
  then show ?case
    by simp
next
  case (Cons p pre)
  from Cons.prems(1) have first: "validateRingDefinition p i = Returns ()"
    by force
  have rest: "\<forall>j < length pre. validateRingDefinition (pre ! j) (i + 1 + j) = Returns ()"
  proof (intro allI impI)
    fix j
    assume "j < length pre"
    then have "validateRingDefinition ((p # pre) ! Suc j) (i + Suc j) = Returns ()"
      using Cons.prems(1) by (metis Suc_less_eq length_Cons)
    then show "validateRingDefinition (pre ! j) (i + 1 + j) = Returns ()"
      by simp
  qed
  have "validateRingDefinition ring (i + 1 + length pre) = Throws e"
    using Cons.prems(2) by simp
  with rest have "validateRings (pre @ ring # post) (i + 1) = Throws e"
    by (rule Cons.IH)
  with first show ?case
    by simp
qed

lemma validateWheelDefinition_rings_throw:
  assumes "getProp w ''name'' = Some (JString nm)" "nm \<noteq> []"
      and "getProp w ''rings'' = Some (JArray ringList)"
      and "validateRings ringList 0 = Throws e"
  shows "validateWheelDefinition w = Throws e"
proof -
  obtain properties where w: "w = JObject properties"
    using assms(1) by (cases w) simp_all
  have obj: "truthy (Some w)" "typeOf (Some w) = ''object''"
    by (simp_all add: w)
  have "ringList \<noteq> []"
    using assms(4) by auto
  then show ?thesis
    unfolding validateWheelDefinition_def
    using obj assms by simp
qed

lemma signsRing_valid: "validateRingDefinition signsRing 0 = Returns ()"
  by (simp add: validateRingDefinition_def signsRing_def Let_def)

text \<open>
  C7 (amended).  The loader throws its validation failures: a text that does not parse, and a
  parsed value that fails validation, both end the call with a thrown
  \<^verbatim>\<open>WheelDefinitionValidationError\<close>, and a call that returns hands out the parsed value, which
  has passed validation.  When the definition is an object with a non-empty name and a ring
  list in which every ring before position \<open>i\<close> is valid and the ring at position \<open>i\<close> has its
  slug, type, label and order index in order and both radii in \<open>[0, 1]\<close> with the inner radius
  not below the outer one, then loading it throws the error with the message
  ``Ring at index i must have radiusInner < radiusOuter'' and the field \<^verbatim>\<open>rings[i].radius\<close>.
\<close>

theorem loader_throws_validation_errors:
  "loadWheelDefinitionFromJSON (Inl syntaxError) =
     Throws \<lparr>message = ''Invalid JSON: '' @ syntaxError, field = None\<rparr> \<and>
   (validateWheelDefinition v = Throws e \<longrightarrow> loadWheelDefinitionFromJSON (Inr v) = Throws e) \<and>
   (loadWheelDefinitionFromJSON r = Returns v \<longrightarrow>
      r = Inr v \<and> validateWheelDefinition v = Returns ()) \<and>
   (getProp w ''name'' = Some (JString nm) \<and> nm \<noteq> [] \<and>
    getProp w ''rings'' = Some (JArray (pre @ ring # post)) \<and>
    (\<forall>j < length pre. validateRingDefinition (pre ! j) j = Returns ()) \<and>
    getProp ring ''slug'' = Some (JString s) \<and> s \<noteq> [] \<and>
    getProp ring ''type'' = Some (JString ty) \<and>
    ty \<in> set [''signs'', ''houses'', ''planets'', ''aspects''] \<and>
    getProp ring ''label'' = Some (JString l) \<and> l \<noteq> [] \<and>
    getProp ring ''orderIndex'' = Some (JNumber oi) \<and>
    getProp ring ''radiusInner'' = Some (JNumber ri) \<and> 0 \<le> ri \<and> ri \<le> 1 \<and>
    getProp ring ''radiusOuter'' = Some (JNumber ro) \<and> 0 \<le> ro \<and> ro \<le> 1 \<and>
    ro \<le> ri \<longrightarrow>
      loadWheelDefinitionFromJSON (Inr w) =
        Throws \<lparr>message = ''Ring at index '' @ showNat (length pre)
                            @ '' must have radiusInner < radiusOuter'',
                field = Some (''rings['' @ showNat (length pre) @ ''].radius'')\<rparr>)"
proof (intro conjI impI)
  show "loadWheelDefinitionFromJSON (Inl syntaxError) =
     Throws \<lparr>message = ''Invalid JSON: '' @ syntaxError, field = None\<rparr>"
    by (simp add: loadWheelDefinitionFromJSON_def)
next
  assume "validateWheelDefinition v = Throws e"
  then show "loadWheelDefinitionFromJSON (Inr v) = Throws e"
    by (simp add: loadWheelDefinitionFromJSON_def)
next
  assume a: "loadWheelDefinitionFromJSON r = Returns v"
  then show "r = Inr v"
    by (auto simp add: loadWheelDefinitionFromJSON_def split: sum.splits completion.splits)
  from a show "validateWheelDefinition v = Returns ()"
    by (auto simp add: loadWheelDefinitionFromJSON_def split: sum.splits completion.splits)
next
  let ?e = "\<lparr>message = ''Ring at index '' @ showNat (length pre)
                            @ '' must have radiusInner < radiusOuter'',
                field = Some (''rings['' @ showNat (length pre) @ ''].radius'')\<rparr>"
  assume h: "getProp w ''name'' = Some (JString nm) \<and> nm \<noteq> [] \<and>
    getProp w ''rings'' = Some (JArray (pre @ ring # post)) \<and>
    (\<forall>j < length pre. validateRingDefinition (pre ! j) j = Returns ()) \<and>
    getProp ring ''slug'' = Some (JString s) \<and> s \<noteq> [] \<and>
    getProp ring ''type'' = Some (JString ty) \<and>
    ty \<in> set [''signs'', ''houses'', ''planets'', ''aspects''] \<and>
    getProp ring ''label'' = Some (JString l) \<and> l \<noteq> [] \<and>
    getProp ring ''orderIndex'' = Some (JNumber oi) \<and>
    getProp ring ''radiusInner'' = Some (JNumber ri) \<and> 0 \<le> ri \<and> ri \<le> 1 \<and>
    getProp ring ''radiusOuter'' = Some (JNumber ro) \<and> 0 \<le> ro \<and> ro \<le> 1 \<and>
    ro \<le> ri"
  then have "validateRingDefinition ring (length pre) = Throws ?e"
    by (intro validateRingDefinition_inverted) (elim conjE, assumption)+
  then have "validateRingDefinition ring (0 + length pre) = Throws ?e"
    by simp
  moreover from h have "\<forall>j < length pre. validateRingDefinition (pre ! j) (0 + j) = Returns ()"
    by simp
  ultimately have "validateRings (pre @ ring # post) 0 = Throws ?e"
    by (intro validateRings_first_invalid)
  moreover from h have "getProp w ''name'' = Some (JString nm)" "nm \<noteq> []"
    "getProp w ''rings'' = Some (JArray (pre @ ring # post))"
    by simp_all
  ultimately have "validateWheelDefinition w = Throws ?e"
    by (intro validateWheelDefinition_rings_throw)
  then show "loadWheelDefinitionFromJSON (Inr w) = Throws ?e"
    by (simp add: loadWheelDefinitionFromJSON_def)
qed

theorem loader_throws_validation_errors_witness:
  "validateRingDefinition signsRing 0 = Returns () \<and>
   getProp invertedRing ''radiusInner'' = Some (JNumber (9 / 10)) \<and>
   getProp invertedRing ''radiusOuter'' = Some (JNumber (5 / 10)) \<and>
   loadWheelDefinitionFromJSON (Inr secondRingInvertedWheel) =
     Throws \<lparr>message = ''Ring at index 1 must have radiusInner < radiusOuter'',
             field = Some ''rings[1].radius''\<rparr>"
proof -
  note t = loader_throws_validation_errors
      [where syntaxError = "''Unexpected end of JSON input''" and v = invertedRadiiWheel
         and e = "\<lparr>message = ''Ring at index 0 must have radiusInner < radiusOuter'',
             field = Some ''rings[0].radius''\<rparr>" and r = "Inr invertedRadiiWheel"
         and w = secondRingInvertedWheel and nm = "''Inverted''"
         and pre = "[signsRing]" and ring = invertedRing and post = "[]"
         and s = "''ring_signs''" and ty = "''signs''" and l = "''Zodiac Signs''"
         and oi = 0 and ri = "9 / 10" and ro = "5 / 10"]
  have h: "getProp secondRingInvertedWheel ''name'' = Some (JString ''Inverted'') \<and> ''Inverted'' \<noteq> [] \<and>
    getProp secondRingInvertedWheel ''rings'' = Some (JArray ([signsRing] @ invertedRing # [])) \<and>
    (\<forall>j < length [signsRing]. validateRingDefinition ([signsRing] ! j) j = Returns ()) \<and>
    getProp invertedRing ''slug'' = Some (JString ''ring_signs'') \<and> ''ring_signs'' \<noteq> [] \<and>
    getProp invertedRing ''type'' = Some (JString ''signs'') \<and>
    ''signs'' \<in> set [''signs'', ''houses'', ''planets'', ''aspects''] \<and>
    getProp invertedRing ''label'' = Some (JString ''Zodiac Signs'') \<and> ''Zodiac Signs'' \<noteq> [] \<and>
    getProp invertedRing ''orderIndex'' = Some (JNumber 0) \<and>
    getProp invertedRing ''radiusInner'' = Some (JNumber (9 / 10)) \<and>
    0 \<le> (9 / 10 :: real) \<and> (9 / 10 :: real) \<le> 1 \<and>
    getProp invertedRing ''radiusOuter'' = Some (JNumber (5 / 10)) \<and>
    0 \<le> (5 / 10 :: real) \<and> (5 / 10 :: real) \<le> 1 \<and>
    (5 / 10 :: real) \<le> 9 / 10"
    by (simp add: secondRingInvertedWheel_def invertedRing_def signsRing_valid)
  have imp: "getProp secondRingInvertedWheel ''name'' = Some (JString ''Inverted'') \<and> ''Inverted'' \<noteq> [] \<and>
    getProp secondRingInvertedWheel ''rings'' = Some (JArray ([signsRing] @ invertedRing # [])) \<and>
    (\<forall>j < length [signsRing]. validateRingDefinition ([signsRing] ! j) j = Returns ()) \<and>
    getProp invertedRing ''slug'' = Some (JString ''ring_signs'') \<and> ''ring_signs'' \<noteq> [] \<and>
    getProp invertedRing ''type'' = Some (JString ''signs'') \<and>
    ''signs'' \<in> set [''signs'', ''houses'', ''planets'', ''aspects''] \<and>
    getProp invertedRing ''label'' = Some (JString ''Zodiac Signs'') \<and> ''Zodiac Signs'' \<noteq> [] \<and>
    getProp invertedRing ''orderIndex'' = Some (JNumber 0) \<and>
    getProp invertedRing ''radiusInner'' = Some (JNumber (9 / 10)) \<and>
    0 \<le> (9 / 10 :: real) \<and> (9 / 10 :: real) \<le> 1 \<and>
    getProp invertedRing ''radiusOuter'' = Some (JNumber (5 / 10)) \<and>
    0 \<le> (5 / 10 :: real) \<and> (5 / 10 :: real) \<le> 1 \<and>
    (5 / 10 :: real) \<le> 9 / 10 \<longrightarrow>
      loadWheelDefinitionFromJSON (Inr secondRingInvertedWheel) =
        Throws \<lparr>message = ''Ring at index '' @ showNat (length [signsRing])
                            @ '' must have radiusInner < radiusOuter'',
                field = Some (''rings['' @ showNat (length [signsRing]) @ ''].radius'')\<rparr>"
    using t by (elim conjE)
  have ld: "loadWheelDefinitionFromJSON (Inr secondRingInvertedWheel) =
        Throws \<lparr>message = ''Ring at index '' @ showNat (length [signsRing])
                            @ '' must have radiusInner < radiusOuter'',
                field = Some (''rings['' @ showNat (length [signsRing]) @ ''].radius'')\<rparr>"
    by (rule mp [OF imp h])
  have one: "showNat (length [signsRing]) = ''1''"
    by (simp add: showNat.simps digitChar_def)
  have r1: "getProp invertedRing ''radiusInner'' = Some (JNumber (9 / 10))"
    by (simp add: invertedRing_def)
  have r2: "getProp invertedRing ''radiusOuter'' = Some (JNumber (5 / 10))"
    by (simp add: invertedRing_def)
  from ld have ld': "loadWheelDefinitionFromJSON (Inr secondRingInvertedWheel) =
     Throws \<lparr>message = ''Ring at index 1 must have radiusInner < radiusOuter'',
             field = Some ''rings[1].radius''\<rparr>"
    unfolding one by simp
  from signsRing_valid r1 r2 ld' show ?thesis
    by (intro conjI)
qed

text \<open>
  Loading the wheel whose ring has inner radius 0.9 and outer radius 0.5 ends in a throw; no
  value is returned.
\<close>

theorem loader_throws_validation_errors_counterexample:
  "loadWheelDefinitionFromJSON (Inr invertedRadiiWheel) =
     Throws \<lparr>message = ''Ring at index 0 must have radiusInner < radiusOuter'',
             field = Some ''rings[0].radius''\<rparr>"
  by (simp add: loadWheelDefinitionFromJSON_def invertedRadiiWheel_throws)

end
